theory Spec2Isabelle
  imports Main "HOL-Library.Sublist"
begin

section \<open>Strings and numbers of the host language\<close>

text \<open>
  The handler is TypeScript running on Node. Strings are modelled as \<^typ>\<open>string\<close>,
  \<^verbatim>\<open>Date.now()\<close> as a natural number of milliseconds, and the template literal
  \<^verbatim>\<open>`${Date.now()}`\<close> as its decimal digits.
\<close>

definition digit_char :: "nat \<Rightarrow> char" where
  "digit_char d = ''0123456789'' ! d"

fun show_nat :: "nat \<Rightarrow> string" where
  "show_nat n = (if n < 10 then [digit_char n] else show_nat (n div 10) @ [digit_char (n mod 10)])"

declare show_nat.simps [simp del]

text \<open>\<^verbatim>\<open>Array.prototype.join(sep)\<close>.\<close>

fun join_with :: "string \<Rightarrow> string list \<Rightarrow> string" where
  "join_with sep [] = []"
| "join_with sep [x] = x"
| "join_with sep (x # y # ys) = x @ sep @ join_with sep (y # ys)"

text \<open>
  \<^verbatim>\<open>String.prototype.replace(pattern, replacement)\<close> with a string pattern: only the
  first occurrence is replaced (the replacement used by the handler has no \<^verbatim>\<open>$\<close>
  escapes). An empty pattern matches at position 0.
\<close>

fun replace_first :: "string \<Rightarrow> string \<Rightarrow> string \<Rightarrow> string" where
  "replace_first pat rep [] = (if pat = [] then rep else [])"
| "replace_first pat rep (c # cs) =
     (if prefix pat (c # cs) then rep @ drop (length pat) (c # cs)
      else c # replace_first pat rep cs)"

text \<open>\<^verbatim>\<open>haystack.includes(needle)\<close>, used to state what a text discloses.\<close>

fun str_includes :: "string \<Rightarrow> string \<Rightarrow> bool" where
  "str_includes [] needle = (needle = [])"
| "str_includes (c # cs) needle = (prefix needle (c # cs) \<or> str_includes cs needle)"

text \<open>The operator \<^verbatim>\<open>a || b\<close> on possibly undefined strings: the first truthy operand.\<close>

definition truthy :: "string option \<Rightarrow> bool" where
  "truthy v = (case v of None \<Rightarrow> False | Some s \<Rightarrow> s \<noteq> [])"

definition or_else :: "string option \<Rightarrow> string \<Rightarrow> string" where
  "or_else v d = (case v of None \<Rightarrow> d | Some s \<Rightarrow> if s = [] then d else s)"

section \<open>The \<^verbatim>\<open>path\<close> module (POSIX flavour)\<close>

text \<open>
  The handler builds every file name with \<^verbatim>\<open>path.join\<close>, \<^verbatim>\<open>path.basename\<close> and
  \<^verbatim>\<open>path.extname\<close>. They are modelled on path components, for a POSIX host
  (separator \<^verbatim>\<open>/\<close>); the Windows branch of the interpreter search is not modelled.
\<close>

fun split_slash :: "string \<Rightarrow> string list" where
  "split_slash [] = [[]]"
| "split_slash (c # cs) =
     (if c = CHR ''/'' then [] # split_slash cs
      else (case split_slash cs of [] \<Rightarrow> [[c]] | w # ws \<Rightarrow> (c # w) # ws))"

text \<open>
  One step of \<^verbatim>\<open>normalizeString\<close>: the stack \<open>res\<close> holds the components kept so far,
  last one first. Empty components and \<^verbatim>\<open>.\<close> are dropped, \<^verbatim>\<open>..\<close> removes the
  previous component when there is one that is not itself \<^verbatim>\<open>..\<close>, and is kept
  only when the path may climb above its root.
\<close>

definition norm_step :: "bool \<Rightarrow> string list \<Rightarrow> string \<Rightarrow> string list" where
  "norm_step allowAboveRoot res seg =
     (if seg = [] \<or> seg = ''.'' then res
      else if seg = ''..'' then
        (case res of
           [] \<Rightarrow> if allowAboveRoot then [''..''] else []
         | r # rs \<Rightarrow> if r = ''..'' then (if allowAboveRoot then ''..'' # res else res) else rs)
      else seg # res)"

definition normalizeString :: "bool \<Rightarrow> string \<Rightarrow> string list" where
  "normalizeString allowAboveRoot p = rev (foldl (norm_step allowAboveRoot) [] (split_slash p))"

definition normalize :: "string \<Rightarrow> string" where
  "normalize p =
     (if p = [] then ''.''
      else
        let isAbsolute = (hd p = CHR ''/'');
            trailingSeparator = (last p = CHR ''/'');
            q = join_with ''/'' (normalizeString (\<not> isAbsolute) p)
        in if q = [] then (if isAbsolute then ''/'' else if trailingSeparator then ''./'' else ''.'')
           else (if isAbsolute then ''/'' else []) @ q @ (if trailingSeparator then ''/'' else []))"

definition path_join :: "string list \<Rightarrow> string" where
  "path_join args =
     (let joined = filter (\<lambda>a. a \<noteq> []) args
      in if joined = [] then ''.'' else normalize (join_with ''/'' joined))"

text \<open>
  The last component of a path, trailing separators ignored (empty when the path has no
  component at all).
\<close>

definition last_component :: "string \<Rightarrow> string" where
  "last_component p = last ([] # filter (\<lambda>s. s \<noteq> []) (split_slash p))"

text \<open>
  \<^verbatim>\<open>path.extname\<close>: from the last dot of the last component to its end; empty when
  there is no dot, when the last dot is the component's first character, or when the
  component is \<^verbatim>\<open>..\<close>.
\<close>

definition after_last_dot :: "string \<Rightarrow> string" where
  "after_last_dot c = rev (takeWhile (\<lambda>x. x \<noteq> CHR ''.'') (rev c))"

definition extname :: "string \<Rightarrow> string" where
  "extname p =
     (let c = last_component p; e = after_last_dot c
      in if CHR ''.'' \<in> set c \<and> c \<noteq> ''..'' \<and> Suc (length e) < length c then CHR ''.'' # e else [])"

text \<open>
  \<^verbatim>\<open>path.basename(p, suffix)\<close>: the last component, without \<open>suffix\<close> when the
  component ends with it and is longer than it. (The handler always passes
  \<^verbatim>\<open>path.extname(p)\<close> as the suffix, which is empty or a proper suffix of the
  component.)
\<close>

definition basename :: "string \<Rightarrow> string \<Rightarrow> string" where
  "basename p sfx =
     (let c = last_component p
      in if sfx \<noteq> [] \<and> length sfx \<le> length p then
           (if sfx = p then []
            else if suffix sfx c \<and> length sfx < length c then take (length c - length sfx) c
            else c)
         else c)"

section \<open>Artifact names\<close>

text \<open>
  Lines 70, 77 and 82 of the handler: the workspace directory under the system's temporary
  directory, the input artifact named by the submission time and the uploaded file name,
  and the output artifact with the input's extension replaced by \<^verbatim>\<open>.json\<close>.
\<close>

definition tempDir_of :: "string \<Rightarrow> string" where
  "tempDir_of tmpdir = path_join [tmpdir, ''whisper-uploads'']"

definition tempFilePath_of :: "string \<Rightarrow> nat \<Rightarrow> string \<Rightarrow> string" where
  "tempFilePath_of tempDir now name = path_join [tempDir, show_nat now @ ''-'' @ name]"

definition outputJsonPath_of :: "string \<Rightarrow> string \<Rightarrow> string" where
  "outputJsonPath_of tempDir tempFilePath =
     path_join [tempDir, basename tempFilePath (extname tempFilePath) @ ''.json'']"

definition scriptPath_of :: "string \<Rightarrow> string" where
  "scriptPath_of cwd = path_join [cwd, ''src'', ''whisper'', ''transcribe.py'']"

text \<open>
  Vocabulary for statements about these names: a single clean path component, the prefix
  that \<^const>\<open>path_join\<close> puts before such a component, and a file name without its
  last extension.
\<close>

definition leaf :: "string \<Rightarrow> bool" where
  "leaf s = (CHR ''/'' \<notin> set s \<and> s \<noteq> [] \<and> s \<noteq> ''.'' \<and> s \<noteq> ''..'')"

definition dir_prefix :: "string \<Rightarrow> string" where
  "dir_prefix d =
     (let res = foldl (norm_step (hd d \<noteq> CHR ''/'')) [] (split_slash d)
      in (if hd d = CHR ''/'' then ''/'' else []) @
         (if res = [] then [] else join_with ''/'' (rev res) @ ''/''))"

definition stem :: "string \<Rightarrow> string" where
  "stem name =
     (if CHR ''.'' \<in> set name then take (length name - Suc (length (after_last_dot name))) name
      else name)"

section \<open>The request, its environment and what the handler leaves behind\<close>

text \<open>
  A form field is a text value or an uploaded file (name and content). Errors are
  JavaScript error objects; the ones rejected by \<^verbatim>\<open>exec\<close> carry the captured
  streams, the exit status and whether the runtime killed the child.
\<close>

datatype form_value = TextField string | FilePart string string

record js_error =
  err_name :: string
  message :: string
  err_stdout :: "string option"
  err_stderr :: "string option"
  err_code :: "nat option"
  err_killed :: bool

definition plain_error :: "string \<Rightarrow> string \<Rightarrow> js_error" where
  "plain_error n m =
     \<lparr>err_name = n, message = m, err_stdout = None, err_stderr = None,
      err_code = None, err_killed = False\<rparr>"

text \<open>\<^verbatim>\<open>String(error)\<close> and what \<^verbatim>\<open>console.error\<close> prints of an error object (its
  first line; the stack frames and own properties that follow are not modelled).\<close>

definition error_to_string :: "js_error \<Rightarrow> string" where
  "error_to_string e = (if message e = [] then err_name e else err_name e @ '': '' @ message e)"

record exec_options =
  timeout :: nat
  maxBuffer :: nat

text \<open>
  What \<^verbatim>\<open>child_process.exec\<close> observes of the child, each time with the streams
  captured so far: it exits with a status; it is still running when the timeout elapses;
  or one of its streams (named) outgrows \<^verbatim>\<open>maxBuffer\<close>. What the runtime does in
  the last two cases is \<open>runtime_kill\<close> below.
\<close>

datatype exec_outcome =
    Exited nat string string
  | TimedOut string string
  | BufferExceeded string string string

record fs_state =
  files :: "string \<rightharpoonup> string"
  dirs :: "string set"

datatype level = ConsoleLog | ConsoleWarn | ConsoleError

datatype event =
    Mkdir string
  | WriteFile string
  | Probe string
  | Exec string exec_options
  | ReadFile string
  | Unlink string
  | Kill string

datatype 'j body = ErrorBody string "string option" | TranscriptionBody 'j

record 'j response =
  status :: nat
  body :: "'j body"

text \<open>
  Everything the handler reads from outside: the parsed form (or the error of
  \<^verbatim>\<open>request.formData()\<close>), the environment variable, the host's directories and clock,
  the file system, which file operations fail, which interpreter probes succeed, how the
  engine command ends and what it does to the file system, whether the engine that the
  shell started for a command line is still running after the runtime has signalled that
  shell, and \<^verbatim>\<open>JSON.parse\<close> on the abstract document type \<open>'j\<close>.
\<close>

record 'j world =
  formData :: "js_error + (string \<rightharpoonup> form_value)"
  env_HUGGING_FACE_TOKEN :: "string option"
  os_tmpdir :: string
  process_cwd :: string
  date_now :: nat
  initial_fs :: fs_state
  mkdir_error :: "string \<Rightarrow> js_error option"
  write_error :: "string \<Rightarrow> js_error option"
  read_error :: "string \<Rightarrow> js_error option"
  unlink_error :: "string \<Rightarrow> js_error option"
  probe :: "string \<Rightarrow> bool"
  engine :: "string \<Rightarrow> exec_options \<Rightarrow> fs_state \<Rightarrow> exec_outcome \<times> fs_state"
  engine_survives :: "string \<Rightarrow> bool"
  json_parse :: "string \<Rightarrow> js_error + 'j"

text \<open>
  The handler's mutable state: the file system, the console, the trace of operations it
  attempted, the two variables declared before the \<^verbatim>\<open>try\<close> block, and the command
  lines whose engine process is still running.
\<close>

record state =
  fs :: fs_state
  console :: "(level \<times> string) list"
  events :: "event list"
  tempFilePath :: "string option"
  outputJsonPath :: "string option"
  running :: "string list"

definition print :: "level \<Rightarrow> string \<Rightarrow> state \<Rightarrow> state" where
  "print l t s = s\<lparr>console := console s @ [(l, t)]\<rparr>"

definition emit :: "event \<Rightarrow> state \<Rightarrow> state" where
  "emit e s = s\<lparr>events := events s @ [e]\<rparr>"

definition existsSync :: "fs_state \<Rightarrow> string \<Rightarrow> bool" where
  "existsSync f p = (p \<in> dirs f \<or> files f p \<noteq> None)"

definition dq :: char where
  "dq = CHR 0x22"

definition newline :: char where
  "newline = CHR 0x0A"

definition quoted :: "string \<Rightarrow> string" where
  "quoted s = dq # s @ [dq]"

section \<open>File operations\<close>

text \<open>
  Each operation records its attempt in the trace, fails when the environment says so (or
  when the path is not a regular file where one is needed), and otherwise updates the
  file system.
\<close>

definition mkdirSync :: "'j world \<Rightarrow> string \<Rightarrow> state \<Rightarrow> (js_error + unit) \<times> state" where
  "mkdirSync w p s =
     (let s' = emit (Mkdir p) s
      in case mkdir_error w p of
           Some e \<Rightarrow> (Inl e, s')
         | None \<Rightarrow> (Inr (), s'\<lparr>fs := (fs s')\<lparr>dirs := insert p (dirs (fs s'))\<rparr>\<rparr>))"

definition writeFile :: "'j world \<Rightarrow> string \<Rightarrow> string \<Rightarrow> state \<Rightarrow> (js_error + unit) \<times> state" where
  "writeFile w p content s =
     (let s' = emit (WriteFile p) s
      in case write_error w p of
           Some e \<Rightarrow> (Inl e, s')
         | None \<Rightarrow>
             if p \<in> dirs (fs s')
             then (Inl (plain_error ''Error'' (''EISDIR: illegal operation on a directory, open '' @ p)), s')
             else (Inr (), s'\<lparr>fs := (fs s')\<lparr>files := (files (fs s'))(p \<mapsto> content)\<rparr>\<rparr>))"

definition readFile :: "'j world \<Rightarrow> string \<Rightarrow> state \<Rightarrow> (js_error + string) \<times> state" where
  "readFile w p s =
     (let s' = emit (ReadFile p) s
      in case read_error w p of
           Some e \<Rightarrow> (Inl e, s')
         | None \<Rightarrow>
             (case files (fs s') p of
                Some content \<Rightarrow> (Inr content, s')
              | None \<Rightarrow>
                  (Inl (plain_error ''Error''
                     ((if p \<in> dirs (fs s') then ''EISDIR: illegal operation on a directory, read ''
                       else ''ENOENT: no such file or directory, open '') @ p)), s')))"

definition unlink :: "'j world \<Rightarrow> string \<Rightarrow> state \<Rightarrow> js_error option \<times> state" where
  "unlink w p s =
     (let s' = emit (Unlink p) s
      in case unlink_error w p of
           Some e \<Rightarrow> (Some e, s')
         | None \<Rightarrow>
             (case files (fs s') p of
                Some content \<Rightarrow> (None, s'\<lparr>fs := (fs s')\<lparr>files := (files (fs s'))(p := None)\<rparr>\<rparr>)
              | None \<Rightarrow>
                  (Some (plain_error ''Error'' (''EPERM: operation not permitted, unlink '' @ p)), s')))"

section \<open>Locating the interpreter\<close>

text \<open>
  \<^verbatim>\<open>findPythonExecutable\<close> (lines 20 to 45), for a host that is not Windows: the
  candidates are probed in order with \<^verbatim>\<open>"<candidate>" --version\<close>; the first probe that
  succeeds wins, and the function throws when none does.
\<close>

definition candidates :: "string list" where
  "candidates = [''python3'', ''python'']"

fun probe_candidates :: "'j world \<Rightarrow> string list \<Rightarrow> state \<Rightarrow> (js_error + string) \<times> state" where
  "probe_candidates w [] s =
     (Inl (plain_error ''Error'' ''Python executable not found.''),
      print ConsoleError ''Could not find Python executable.'' s)"
| "probe_candidates w (cmd # cmds) s =
     (let s' = emit (Probe (quoted cmd @ '' --version'')) s
      in if probe w (quoted cmd @ '' --version'')
         then (Inr cmd, print ConsoleLog (''Found Python at: '' @ cmd) s')
         else probe_candidates w cmds s')"

definition findPythonExecutable :: "'j world \<Rightarrow> state \<Rightarrow> (js_error + string) \<times> state" where
  "findPythonExecutable w s = probe_candidates w candidates s"

section \<open>Building and running the command\<close>

text \<open>Lines 95 to 114: the parts of the command line, joined by single spaces.\<close>

definition commandParts ::
    "string \<Rightarrow> string \<Rightarrow> string \<Rightarrow> string \<Rightarrow> bool \<Rightarrow> string option \<Rightarrow> string list" where
  "commandParts pythonPath scriptPath tempFile outputJson diarize hfToken =
     [quoted pythonPath, quoted scriptPath,
      ''--input '' @ quoted tempFile, ''--output-json '' @ quoted outputJson] @
     (if diarize then
        ''--diarize'' #
        (case hfToken of
           None \<Rightarrow> []
         | Some t \<Rightarrow> if t = [] then [] else [''--hf-token '' @ quoted t])
      else [])"

definition command_of ::
    "string \<Rightarrow> string \<Rightarrow> string \<Rightarrow> string \<Rightarrow> bool \<Rightarrow> string option \<Rightarrow> string" where
  "command_of pythonPath scriptPath tempFile outputJson diarize hfToken =
     join_with '' '' (commandParts pythonPath scriptPath tempFile outputJson diarize hfToken)"

text \<open>Line 116: the logged command, with the first occurrence of the token replaced.\<close>

definition logged_command :: "string option \<Rightarrow> string \<Rightarrow> string" where
  "logged_command hfToken command =
     replace_first (case hfToken of None \<Rightarrow> ''dummy-token'' | Some t \<Rightarrow> t) ''[HF_TOKEN_HIDDEN]'' command"

text \<open>Lines 120 to 123: the options passed to \<^verbatim>\<open>exec\<close> (milliseconds and bytes).\<close>

definition engine_options :: exec_options where
  "engine_options = \<lparr>timeout = 600000, maxBuffer = 10 * 1024 * 1024\<rparr>"

text \<open>
  The promisified \<^verbatim>\<open>exec\<close>: it resolves with the two streams on exit status zero and
  rejects otherwise. A failed or killed command is rejected with the message
  \<^verbatim>\<open>Command failed: <command>\n<stderr>\<close>, the exit status and the
  \<^verbatim>\<open>killed\<close> flag (set after a timeout); an overflowing stream with a
  \<^verbatim>\<open>RangeError\<close>. All carry the captured streams.
\<close>

definition command_failed :: "string \<Rightarrow> nat option \<Rightarrow> bool \<Rightarrow> string \<Rightarrow> string \<Rightarrow> js_error" where
  "command_failed cmd code killed out err =
     \<lparr>err_name = ''Error'', message = ''Command failed: '' @ cmd @ [newline] @ err,
      err_stdout = Some out, err_stderr = Some err, err_code = code, err_killed = killed\<rparr>"

definition execPromise :: "string \<Rightarrow> exec_outcome \<Rightarrow> js_error + string \<times> string" where
  "execPromise cmd outcome =
     (case outcome of
        Exited code out err \<Rightarrow>
          if code = 0 then Inr (out, err) else Inl (command_failed cmd (Some code) False out err)
      | TimedOut out err \<Rightarrow> Inl (command_failed cmd None True out err)
      | BufferExceeded stream out err \<Rightarrow>
          Inl \<lparr>err_name = ''RangeError'', message = stream @ '' maxBuffer length exceeded'',
               err_stdout = Some out, err_stderr = Some err, err_code = None, err_killed = False\<rparr>)"

text \<open>The streams captured from the child, whatever way it ended.\<close>

fun captured_stdout :: "exec_outcome \<Rightarrow> string" where
  "captured_stdout (Exited code out err) = out"
| "captured_stdout (TimedOut out err) = out"
| "captured_stdout (BufferExceeded stream out err) = out"

fun captured_stderr :: "exec_outcome \<Rightarrow> string" where
  "captured_stderr (Exited code out err) = err"
| "captured_stderr (TimedOut out err) = err"
| "captured_stderr (BufferExceeded stream out err) = err"

text \<open>The command lines of a trace that were handed to the shell as engine runs.\<close>

fun executed :: "event list \<Rightarrow> string list" where
  "executed [] = []"
| "executed (Exec command opts # es) = command # executed es"
| "executed (e # es) = executed es"

section \<open>The handler\<close>

definition respond :: "nat \<Rightarrow> string \<Rightarrow> string option \<Rightarrow> 'j response" where
  "respond code msg details = \<lparr>status = code, body = ErrorBody msg details\<rparr>"

text \<open>
  Lines 144 to 155, the inner \<^verbatim>\<open>catch\<close>: the details are the first non-empty of the
  error's stderr, stdout and message; when the output artifact exists its content is
  appended, and a failure to read it is ignored.
\<close>

definition catch_exec :: "'j world \<Rightarrow> string \<Rightarrow> js_error \<Rightarrow> state \<Rightarrow> 'j response \<times> state" where
  "catch_exec w outputJson execError s =
     (let s1 = print ConsoleError (''Error executing Python script: '' @ error_to_string execError) s;
          errorDetails =
            or_else (err_stderr execError)
              (or_else (err_stdout execError)
                 (or_else (Some (message execError)) ''Unknown execution error''))
      in if existsSync (fs s1) outputJson then
           (case readFile w outputJson s1 of
              (Inr partialResult, s2) \<Rightarrow>
                (respond 500 ''Failed to execute transcription script.''
                   (Some (errorDetails @ [newline] @ ''Partial output: '' @ partialResult)), s2)
            | (Inl readErr, s2) \<Rightarrow>
                (respond 500 ''Failed to execute transcription script.'' (Some errorDetails), s2))
         else (respond 500 ''Failed to execute transcription script.'' (Some errorDetails), s1))"

text \<open>
  Lines 119 to 155, the inner \<^verbatim>\<open>try\<close>: run the command, log the streams (a
  non-empty stderr as a warning, lines 125 to 128), check for
  the output artifact, read and parse it. Every error raised in between, by the command,
  by the read or by the parser, reaches the inner \<^verbatim>\<open>catch\<close>.
\<close>

definition log_streams :: "string \<Rightarrow> string \<Rightarrow> state \<Rightarrow> state" where
  "log_streams out err s =
     print ConsoleLog (''Python script stdout: '' @ out)
       (if err = [] then s else print ConsoleWarn (''Python script stderr: '' @ err) s)"

text \<open>
  What the runtime does besides rejecting when the timeout elapses or a stream overflows:
  \<^verbatim>\<open>exec\<close> runs the command line in a shell and sends the kill signal to that shell
  only. Node's documentation of \<^verbatim>\<open>subprocess.kill\<close> notes that the children of a
  process started through a shell are not terminated with it; whether the engine then
  keeps running is the environment's.
\<close>

definition signal_shell :: "'j world \<Rightarrow> string \<Rightarrow> state \<Rightarrow> state" where
  "signal_shell w command s =
     (let s' = emit (Kill command) s
      in if engine_survives w command then s'\<lparr>running := running s' @ [command]\<rparr> else s')"

definition runtime_kill :: "'j world \<Rightarrow> string \<Rightarrow> exec_outcome \<Rightarrow> state \<Rightarrow> state" where
  "runtime_kill w command outcome s =
     (case outcome of
        Exited code out err \<Rightarrow> s
      | TimedOut out err \<Rightarrow> signal_shell w command s
      | BufferExceeded stream out err \<Rightarrow> signal_shell w command s)"

definition run_engine :: "'j world \<Rightarrow> string \<Rightarrow> string \<Rightarrow> state \<Rightarrow> 'j response \<times> state" where
  "run_engine w command outputJson s =
     (let (outcome, fs') = engine w command engine_options (fs s);
          s1 = runtime_kill w command outcome (emit (Exec command engine_options) (s\<lparr>fs := fs'\<rparr>))
      in case execPromise command outcome of
           Inl execError \<Rightarrow> catch_exec w outputJson execError s1
         | Inr (out, err) \<Rightarrow>
             let s3 = log_streams out err s1
             in if existsSync (fs s3) outputJson then
                  (case readFile w outputJson s3 of
                     (Inl readErr, s4) \<Rightarrow> catch_exec w outputJson readErr s4
                   | (Inr transcriptionResult, s4) \<Rightarrow>
                       (case json_parse w transcriptionResult of
                          Inl syntaxErr \<Rightarrow> catch_exec w outputJson syntaxErr s4
                        | Inr transcriptionData \<Rightarrow>
                            (\<lparr>status = 200, body = TranscriptionBody transcriptionData\<rparr>, s4)))
                else
                  (respond 500 ''Transcription failed: Output file not generated.''
                     (Some (if err = [] then out else err)),
                   print ConsoleError (''Script stderr: '' @ err)
                     (print ConsoleError ''Output JSON file was not created by the script.'' s3)))"

text \<open>
  The response alone of lines 119 to 155, as a function of how the engine ended and of the
  file system it left: what \<^verbatim>\<open>readFile\<close> yields, the response of the inner
  \<^verbatim>\<open>catch\<close>, and the response of the inner \<^verbatim>\<open>try\<close>.
\<close>

definition read_result :: "'j world \<Rightarrow> fs_state \<Rightarrow> string \<Rightarrow> js_error + string" where
  "read_result w f p =
     (case read_error w p of
        Some e \<Rightarrow> Inl e
      | None \<Rightarrow>
          (case files f p of
             Some content \<Rightarrow> Inr content
           | None \<Rightarrow>
               Inl (plain_error ''Error''
                 ((if p \<in> dirs f then ''EISDIR: illegal operation on a directory, read ''
                   else ''ENOENT: no such file or directory, open '') @ p))))"

definition failure_reply :: "'j world \<Rightarrow> string \<Rightarrow> fs_state \<Rightarrow> js_error \<Rightarrow> 'j response" where
  "failure_reply w outputJson f execError =
     (let errorDetails =
            or_else (err_stderr execError)
              (or_else (err_stdout execError)
                 (or_else (Some (message execError)) ''Unknown execution error''))
      in if existsSync f outputJson then
           (case read_result w f outputJson of
              Inr partialResult \<Rightarrow>
                respond 500 ''Failed to execute transcription script.''
                  (Some (errorDetails @ [newline] @ ''Partial output: '' @ partialResult))
            | Inl readErr \<Rightarrow>
                respond 500 ''Failed to execute transcription script.'' (Some errorDetails))
         else respond 500 ''Failed to execute transcription script.'' (Some errorDetails))"

definition engine_reply ::
    "'j world \<Rightarrow> string \<Rightarrow> string \<Rightarrow> exec_outcome \<Rightarrow> fs_state \<Rightarrow> 'j response" where
  "engine_reply w command outputJson outcome f =
     (case execPromise command outcome of
        Inl execError \<Rightarrow> failure_reply w outputJson f execError
      | Inr (out, err) \<Rightarrow>
          if existsSync f outputJson then
            (case read_result w f outputJson of
               Inl readErr \<Rightarrow> failure_reply w outputJson f readErr
             | Inr transcriptionResult \<Rightarrow>
                 (case json_parse w transcriptionResult of
                    Inl syntaxErr \<Rightarrow> failure_reply w outputJson f syntaxErr
                  | Inr transcriptionData \<Rightarrow>
                      \<lparr>status = 200, body = TranscriptionBody transcriptionData\<rparr>))
          else respond 500 ''Transcription failed: Output file not generated.''
                 (Some (if err = [] then out else err)))"

definition initial_state :: "'j world \<Rightarrow> state" where
  "initial_state w =
     \<lparr>fs = initial_fs w, console = [], events = [], tempFilePath = None, outputJsonPath = None,
      running = []\<rparr>"

text \<open>
  The outer \<^verbatim>\<open>try\<close> block runs in three stages. A stage throws (to the outer
  \<^verbatim>\<open>catch\<close>), returns a response, or hands a value to the next stage.
\<close>

datatype ('j, 'a) step = Threw js_error | Returned "'j response" | Continue 'a

record job =
  job_diarize :: bool
  job_hfToken :: "string option"
  job_tempDir :: string
  job_tempFile :: string

text \<open>
  Lines 52 to 78: parse the form, reject a missing file, warn about a missing token, create
  the workspace directory and write the input artifact. A text field in place of the file
  has no \<^verbatim>\<open>arrayBuffer\<close> method, which throws.
\<close>

definition receive :: "'j world \<Rightarrow> state \<Rightarrow> ('j, job) step \<times> state" where
  "receive w s =
     (case formData w of
        Inl e \<Rightarrow> (Threw e, s)
      | Inr form \<Rightarrow>
          let mediaFile = form ''mediaFile'';
              diarize = (form ''diarize'' = Some (TextField ''true''))
          in if mediaFile = None \<or> mediaFile = Some (TextField []) then
               (Returned (respond 400 ''No media file uploaded'' None), s)
             else
               let hfToken = env_HUGGING_FACE_TOKEN w;
                   s1 = (if diarize \<and> \<not> truthy hfToken
                         then print ConsoleWarn
                                ''Diarization requested, but HUGGING_FACE_TOKEN environment variable is not set.'' s
                         else s);
                   tempDir = tempDir_of (os_tmpdir w)
               in case (if existsSync (fs s1) tempDir then (Inr (), s1) else mkdirSync w tempDir s1) of
                    (Inl e, s2) \<Rightarrow> (Threw e, s2)
                  | (Inr u, s2) \<Rightarrow>
                      (case mediaFile of
                         Some (FilePart name content) \<Rightarrow>
                           let tempFile = tempFilePath_of tempDir (date_now w) name;
                               s3 = s2\<lparr>tempFilePath := Some tempFile\<rparr>
                           in (case writeFile w tempFile content s3 of
                                 (Inl e, s4) \<Rightarrow> (Threw e, s4)
                               | (Inr u', s4) \<Rightarrow>
                                   (Continue \<lparr>job_diarize = diarize, job_hfToken = hfToken,
                                              job_tempDir = tempDir, job_tempFile = tempFile\<rparr>, s4))
                       | _ \<Rightarrow>
                           (Threw (plain_error ''TypeError'' ''mediaFile.arrayBuffer is not a function''), s2)))"

text \<open>
  Lines 79 to 116, after the input artifact is written: derive the output path, locate
  the interpreter, check that the worker script exists, build and log the command. The
  stage hands on the command and the output path.
\<close>

definition after_write :: "'j world \<Rightarrow> job \<Rightarrow> state \<Rightarrow> ('j, string \<times> string) step \<times> state" where
  "after_write w j s =
     (let s1 = print ConsoleLog (''Temporary file saved to: '' @ job_tempFile j) s;
          outputJson = outputJsonPath_of (job_tempDir j) (job_tempFile j);
          s2 = s1\<lparr>outputJsonPath := Some outputJson\<rparr>
      in case findPythonExecutable w s2 of
           (Inl e, s3) \<Rightarrow> (Threw e, s3)
         | (Inr pythonPath, s3) \<Rightarrow>
             let scriptPath = scriptPath_of (process_cwd w)
             in if existsSync (fs s3) scriptPath then
                  let s4 = (if job_diarize j \<and> \<not> truthy (job_hfToken j)
                            then print ConsoleWarn ''Proceeding with diarization request but without HF token.'' s3
                            else s3);
                      command = command_of pythonPath scriptPath (job_tempFile j) outputJson
                                  (job_diarize j) (job_hfToken j);
                      s5 = print ConsoleLog (''Executing command: '' @ logged_command (job_hfToken j) command) s4
                  in (Continue (command, outputJson), s5)
                else
                  (Returned (respond 500 ''Transcription script not found on server'' None),
                   print ConsoleError (''Transcription script not found at: '' @ scriptPath) s3))"

definition prepare :: "'j world \<Rightarrow> ('j, string \<times> string) step \<times> state" where
  "prepare w =
     (case receive w (initial_state w) of
        (Threw e, s) \<Rightarrow> (Threw e, s)
      | (Returned r, s) \<Rightarrow> (Returned r, s)
      | (Continue j, s) \<Rightarrow> after_write w j s)"

definition try_block :: "'j world \<Rightarrow> (js_error + 'j response) \<times> state" where
  "try_block w =
     (case prepare w of
        (Threw e, s) \<Rightarrow> (Inl e, s)
      | (Returned r, s) \<Rightarrow> (Inr r, s)
      | (Continue (command, outputJson), s) \<Rightarrow>
          (case run_engine w command outputJson s of (resp, s') \<Rightarrow> (Inr resp, s')))"

text \<open>
  Lines 160 to 178, the \<^verbatim>\<open>finally\<close> block: each artifact that is set and exists is
  unlinked; a failure is logged and nothing is thrown.
\<close>

definition cleanup_artifact :: "'j world \<Rightarrow> string \<Rightarrow> string option \<Rightarrow> state \<Rightarrow> state" where
  "cleanup_artifact w what var s =
     (case var of
        None \<Rightarrow> s
      | Some p \<Rightarrow>
          if p \<noteq> [] \<and> existsSync (fs s) p then
            (case unlink w p s of
               (None, s') \<Rightarrow> print ConsoleLog (''Cleaned up temporary '' @ what @ '' file: '' @ p) s'
             | (Some e, s') \<Rightarrow>
                 print ConsoleError
                   (''Error cleaning up temporary '' @ what @ '' file '' @ p @ '': '' @ error_to_string e) s')
          else s)"

definition cleanup :: "'j world \<Rightarrow> state \<Rightarrow> state" where
  "cleanup w s =
     cleanup_artifact w ''output'' (outputJsonPath s) (cleanup_artifact w ''input'' (tempFilePath s) s)"

text \<open>
  The whole handler: the \<^verbatim>\<open>try\<close> block, the outer \<^verbatim>\<open>catch\<close> (lines 157 to 159) and
  the \<^verbatim>\<open>finally\<close> block. The result is the response, the state when the
  \<^verbatim>\<open>finally\<close> block starts and the state when the handler returns.
\<close>

record 'j result =
  response :: "'j response"
  at_cleanup :: state
  final :: state

definition settle :: "'j world \<Rightarrow> 'j response \<times> state" where
  "settle w =
     (case try_block w of
        (Inr resp, s) \<Rightarrow> (resp, s)
      | (Inl error, s) \<Rightarrow>
          (respond 500 ''An unexpected error occurred.''
             (Some (if message error = [] then error_to_string error else message error)),
           print ConsoleError (''API Error: '' @ error_to_string error) s))"

definition POST :: "'j world \<Rightarrow> 'j result" where
  "POST w =
     (case settle w of
        (resp, s) \<Rightarrow> \<lparr>response = resp, at_cleanup = s, final = cleanup w s\<rparr>)"

section \<open>Conditions on a request\<close>

text \<open>
  Vocabulary for the statements below. The input artifact of an upload; the upload can be
  stored (the form carries a file part, the workspace directory exists or can be created,
  and the write is not refused); diarization is requested; some interpreter candidate
  answers its probe.
\<close>

definition input_path :: "'j world \<Rightarrow> string \<Rightarrow> string" where
  "input_path w name = tempFilePath_of (tempDir_of (os_tmpdir w)) (date_now w) name"

definition output_path :: "'j world \<Rightarrow> string \<Rightarrow> string" where
  "output_path w name = outputJsonPath_of (tempDir_of (os_tmpdir w)) (input_path w name)"

definition upload_stored :: "'j world \<Rightarrow> string \<Rightarrow> string \<Rightarrow> bool" where
  "upload_stored w name content =
     ((case formData w of
         Inl e \<Rightarrow> False
       | Inr form \<Rightarrow> form ''mediaFile'' = Some (FilePart name content)) \<and>
      (existsSync (initial_fs w) (tempDir_of (os_tmpdir w)) \<or>
       mkdir_error w (tempDir_of (os_tmpdir w)) = None) \<and>
      write_error w (input_path w name) = None \<and>
      input_path w name \<notin> insert (tempDir_of (os_tmpdir w)) (dirs (initial_fs w)))"

text \<open>The file system once the upload is stored: the input artifact written, the workspace
  directory created when it did not exist.\<close>

definition stored_fs :: "'j world \<Rightarrow> string \<Rightarrow> string \<Rightarrow> fs_state" where
  "stored_fs w name content =
     \<lparr>files = (files (initial_fs w))(input_path w name \<mapsto> content),
      dirs = (if existsSync (initial_fs w) (tempDir_of (os_tmpdir w)) then dirs (initial_fs w)
              else insert (tempDir_of (os_tmpdir w)) (dirs (initial_fs w)))\<rparr>"

definition diarize_requested :: "'j world \<Rightarrow> bool" where
  "diarize_requested w =
     (case formData w of
        Inl e \<Rightarrow> False
      | Inr form \<Rightarrow> form ''diarize'' = Some (TextField ''true''))"

definition interpreter_found :: "'j world \<Rightarrow> bool" where
  "interpreter_found w = list_ex (\<lambda>c. probe w (quoted c @ '' --version'')) candidates"

section \<open>How the shell splits a command line\<close>

text \<open>
  \<^verbatim>\<open>exec\<close> hands the command string to \<^verbatim>\<open>/bin/sh -c\<close>. The model covers the
  quoting rules that decide where a word ends: blanks separate words outside quotes,
  the characters \<^verbatim>\<open>; & | < > ( )\<close> are operators outside quotes, a double quote
  opens a region closed by the next double quote that is not escaped, a single quote a
  region closed by the next single quote, and a backslash outside quotes takes the next
  character literally. Expansions (\<^verbatim>\<open>$\<close>, backquotes, globbing) are not performed:
  their text stays in the word.
\<close>

datatype token = Word string | Op string

datatype quoting = Unquoted | InDouble | InSingle

definition flush :: "string option \<Rightarrow> token list" where
  "flush cur = (case cur of None \<Rightarrow> [] | Some w \<Rightarrow> [Word w])"

definition grow :: "string option \<Rightarrow> string \<Rightarrow> string option" where
  "grow cur cs = (case cur of None \<Rightarrow> Some cs | Some w \<Rightarrow> Some (w @ cs))"

definition sq :: char where
  "sq = CHR 0x27"

definition backslash :: char where
  "backslash = CHR 0x5C"

fun sh_lex :: "quoting \<Rightarrow> string option \<Rightarrow> string \<Rightarrow> token list" where
  "sh_lex q cur [] = flush cur"
| "sh_lex Unquoted cur (c # cs) =
     (if c \<in> set [CHR '' '', CHR 0x09, CHR 0x0A] then flush cur @ sh_lex Unquoted None cs
      else if c \<in> set '';&|<>()'' then flush cur @ Op [c] # sh_lex Unquoted None cs
      else if c = dq then sh_lex InDouble (grow cur []) cs
      else if c = sq then sh_lex InSingle (grow cur []) cs
      else if c = backslash then
        (case cs of [] \<Rightarrow> flush (grow cur [c]) | d # ds \<Rightarrow> sh_lex Unquoted (grow cur [d]) ds)
      else sh_lex Unquoted (grow cur [c]) cs)"
| "sh_lex InDouble cur (c # cs) =
     (if c = dq then sh_lex Unquoted cur cs
      else if c = backslash then
        (case cs of
           [] \<Rightarrow> flush (grow cur [c])
         | d # ds \<Rightarrow>
             if d \<in> set [dq, backslash, CHR ''$'', CHR 0x60] then sh_lex InDouble (grow cur [d]) ds
             else sh_lex InDouble (grow cur [c, d]) ds)
      else sh_lex InDouble (grow cur [c]) cs)"
| "sh_lex InSingle cur (c # cs) =
     (if c = sq then sh_lex Unquoted cur cs else sh_lex InSingle (grow cur [c]) cs)"

definition sh_words :: "string \<Rightarrow> token list" where
  "sh_words command = sh_lex Unquoted None command"

section \<open>Sample requests\<close>

text \<open>
  A host with the worker script installed, an upload form, and a request that succeeds:
  the interpreter \<^verbatim>\<open>python3\<close> answers the probe, the engine exits with status zero and
  writes a document to the output path of an upload named \<^verbatim>\<open>a.mp3\<close> at time 5. The
  document type is \<^typ>\<open>string\<close> and the parser accepts every text. The other samples
  vary this request.
\<close>

definition host_fs :: fs_state where
  "host_fs = \<lparr>files = [''/app/src/whisper/transcribe.py'' \<mapsto> ''import whisper''],
              dirs = {''/tmp'', ''/app''}\<rparr>"

definition upload :: "string \<Rightarrow> bool \<Rightarrow> (string \<rightharpoonup> form_value)" where
  "upload name diarize =
     [''mediaFile'' \<mapsto> FilePart name ''RIFF'',
      ''diarize'' \<mapsto> TextField (if diarize then ''true'' else ''false'')]"

definition engine_writes :: "exec_outcome \<Rightarrow> string option \<Rightarrow>
    string \<Rightarrow> exec_options \<Rightarrow> fs_state \<Rightarrow> exec_outcome \<times> fs_state" where
  "engine_writes outcome doc command opts f =
     (outcome,
      case doc of None \<Rightarrow> f
      | Some d \<Rightarrow> f\<lparr>files := (files f)(''/tmp/whisper-uploads/5-a.json'' \<mapsto> d)\<rparr>)"

definition sample :: "string world" where
  "sample =
     \<lparr>formData = Inr (upload ''a.mp3'' False),
      env_HUGGING_FACE_TOKEN = None,
      os_tmpdir = ''/tmp'', process_cwd = ''/app'', date_now = 5,
      initial_fs = host_fs,
      mkdir_error = (\<lambda>p. None), write_error = (\<lambda>p. None), read_error = (\<lambda>p. None),
      unlink_error = (\<lambda>p. None),
      probe = (\<lambda>c. c = quoted ''python3'' @ '' --version''),
      engine = engine_writes (Exited 0 ''done'' []) (Some ''{}''),
      engine_survives = (\<lambda>c. False),
      json_parse = Inr\<rparr>"

section \<open>Properties of the naming scheme\<close>

lemma show_nat_nonempty: "show_nat n \<noteq> []"
  by (subst show_nat.simps) simp

lemma digit_char_inj: "a < 10 \<Longrightarrow> b < 10 \<Longrightarrow> digit_char a = digit_char b \<Longrightarrow> a = b"
proof -
  assume a: "a < 10" and b: "b < 10" and e: "digit_char a = digit_char b"
  have d: "distinct ''0123456789''" by simp
  have "length ''0123456789'' = 10" by simp
  with a b e d show "a = b" unfolding digit_char_def
    by (metis nth_eq_iff_index_eq)
qed

lemma show_nat_inj: "show_nat a = show_nat b \<Longrightarrow> a = b"
proof (induction a arbitrary: b rule: show_nat.induct)
  case (1 n)
  show ?case
  proof (cases "n < 10")
    case True
    note n = this
    show ?thesis
    proof (cases "b < 10")
      case True
      with n 1(2) show ?thesis
        using digit_char_inj[of n b] by (simp add: show_nat.simps[of n] show_nat.simps[of b])
    next
      case False
      with n 1(2) show ?thesis
        using show_nat_nonempty[of "b div 10"] by (simp add: show_nat.simps[of n] show_nat.simps[of b])
    qed
  next
    case False
    note n = this
    show ?thesis
    proof (cases "b < 10")
      case True
      with n 1(2) show ?thesis
        using show_nat_nonempty[of "n div 10"] by (simp add: show_nat.simps[of n] show_nat.simps[of b])
    next
      case False
      with n 1(2) have e: "show_nat (n div 10) = show_nat (b div 10)"
        and d: "digit_char (n mod 10) = digit_char (b mod 10)"
        by (simp_all add: show_nat.simps[of n] show_nat.simps[of b])
      have "n div 10 = b div 10" using 1(1)[OF n e] .
      moreover have "n mod 10 = b mod 10" using d by (intro digit_char_inj) simp_all
      ultimately show ?thesis by (metis div_mult_mod_eq)
    qed
  qed
qed

lemma split_slash_nonempty: "split_slash p \<noteq> []"
  by (induction p) (auto split: list.splits)

lemma split_slash_append: "split_slash (xs @ CHR ''/'' # ys) = split_slash xs @ split_slash ys"
  by (induction xs) (auto split: list.splits simp: split_slash_nonempty)

lemma split_slash_plain: "CHR ''/'' \<notin> set s \<Longrightarrow> split_slash s = [s]"
  by (induction s) auto

lemma join_with_snoc: "join_with sep (xs @ [s]) = (if xs = [] then s else join_with sep xs @ sep @ s)"
  by (induction sep xs rule: join_with.induct) auto

lemma normalize_leaf:
  assumes d: "d \<noteq> []" and s: "leaf s"
  shows "normalize (d @ CHR ''/'' # s) = dir_prefix d @ s"
proof -
  have s1: "CHR ''/'' \<notin> set s" "s \<noteq> []" "s \<noteq> ''.''" "s \<noteq> ''..''" using s by (auto simp: leaf_def)
  have l: "last (d @ CHR ''/'' # s) \<noteq> CHR ''/''" using s1 by (metis last_append last_ConsR last_in_set list.distinct(1))
  have h: "hd (d @ CHR ''/'' # s) = hd d" using d by simp
  have st: "norm_step a res s = s # res" for a res using s1 by (simp add: norm_step_def)
  have sp: "split_slash (d @ CHR ''/'' # s) = split_slash d @ [s]"
    using s1 by (simp add: split_slash_append split_slash_plain)
  have ns: "normalizeString a (d @ CHR ''/'' # s) = rev (foldl (norm_step a) [] (split_slash d)) @ [s]" for a
    by (simp add: normalizeString_def sp st)
  show ?thesis
    using s1 l h by (auto simp: normalize_def ns join_with_snoc dir_prefix_def Let_def)
qed

lemma normalize_nonempty: "normalize p \<noteq> []"
  by (auto simp: normalize_def Let_def)

lemma path_join_nonempty: "path_join args \<noteq> []"
  by (auto simp: path_join_def Let_def normalize_nonempty)

lemma path_join_leaf: "d \<noteq> [] \<Longrightarrow> leaf s \<Longrightarrow> path_join [d, s] = dir_prefix d @ s"
  using normalize_leaf[of d s] by (auto simp: path_join_def leaf_def)

lemma dir_prefix_shape: "dir_prefix d = [] \<or> (\<exists>x. dir_prefix d = x @ ''/'')"
  by (auto simp: dir_prefix_def Let_def)

lemma last_component_leaf:
  assumes "leaf s" shows "last_component (dir_prefix d @ s) = s"
proof -
  have s1: "CHR ''/'' \<notin> set s" "s \<noteq> []" using assms by (auto simp: leaf_def)
  from dir_prefix_shape[of d] show ?thesis
  proof
    assume "dir_prefix d = []"
    then show ?thesis using s1 by (simp add: last_component_def split_slash_plain)
  next
    assume "\<exists>x. dir_prefix d = x @ ''/''"
    then obtain x where x: "dir_prefix d = x @ ''/''" by blast
    have "split_slash (dir_prefix d @ s) = split_slash x @ [s]"
      using s1 by (simp add: x split_slash_append split_slash_plain)
    then show ?thesis using s1 by (simp add: last_component_def)
  qed
qed

lemma show_nat_digits: "set (show_nat n) \<subseteq> set ''0123456789''"
proof (induction n rule: show_nat.induct)
  case (1 n)
  show ?case
  proof (cases "n < 10")
    case True
    have "digit_char n \<in> set ''0123456789''"
      unfolding digit_char_def using True by (intro nth_mem) simp
    then show ?thesis using True by (subst show_nat.simps) simp
  next
    case False
    have "digit_char (n mod 10) \<in> set ''0123456789''"
      unfolding digit_char_def by (intro nth_mem) simp
    with False 1 show ?thesis by (subst show_nat.simps) simp
  qed
qed

lemma stamp_parse:
  assumes "show_nat a @ CHR ''-'' # x = show_nat b @ CHR ''-'' # y"
  shows "a = b \<and> x = y"
proof -
  let ?P = "\<lambda>c. c \<in> set ''0123456789''"
  have ta: "takeWhile ?P (show_nat n @ CHR ''-'' # z) = show_nat n" for n z
  proof -
    have "takeWhile ?P (show_nat n @ CHR ''-'' # z) = show_nat n @ takeWhile ?P (CHR ''-'' # z)"
      using show_nat_digits[of n] by (intro takeWhile_append2) blast
    then show ?thesis by simp
  qed
  have "show_nat a = show_nat b" using ta[of a x] ta[of b y] assms by simp
  then show ?thesis using assms show_nat_inj by auto
qed

lemma last_dot_split:
  assumes "CHR ''.'' \<in> set name"
  shows "name = stem name @ CHR ''.'' # after_last_dot name"
proof -
  from split_list_last[OF assms] obtain ys zs where
    n: "name = ys @ CHR ''.'' # zs" and z: "CHR ''.'' \<notin> set zs" by blast
  have "takeWhile (\<lambda>x. x \<noteq> CHR ''.'') (rev zs @ CHR ''.'' # rev ys) = rev zs"
    using z by (auto simp: takeWhile_tail)
  then have a: "after_last_dot name = zs" by (simp add: after_last_dot_def n)
  have "stem name = ys" using assms by (simp add: stem_def a) (simp add: n)
  with a n show ?thesis by simp
qed

lemma after_last_dot_stamp:
  assumes "CHR ''.'' \<in> set name"
  shows "after_last_dot (show_nat t @ CHR ''-'' # name) = after_last_dot name"
proof -
  have "\<exists>x\<in>set (rev name). \<not> x \<noteq> CHR ''.''" using assms by simp
  then obtain x where "x \<in> set (rev name)" "\<not> x \<noteq> CHR ''.''" by blast
  then have "takeWhile (\<lambda>x. x \<noteq> CHR ''.'') (rev name @ CHR ''-'' # rev (show_nat t))
      = takeWhile (\<lambda>x. x \<noteq> CHR ''.'') (rev name)"
    by (rule takeWhile_append1)
  then show ?thesis by (simp add: after_last_dot_def)
qed

lemma stamp_no_char:
  assumes "c \<notin> set ''0123456789-''"
  shows "c \<in> set (show_nat t @ CHR ''-'' # name) \<longleftrightarrow> c \<in> set name"
  using assms show_nat_digits[of t] by auto

lemma leaf_stamp: "CHR ''/'' \<notin> set name \<Longrightarrow> leaf (show_nat t @ CHR ''-'' # name)"
  unfolding leaf_def
proof (intro conjI)
  assume n: "CHR ''/'' \<notin> set name"
  show "CHR ''/'' \<notin> set (show_nat t @ CHR ''-'' # name)"
    using n by (subst stamp_no_char) simp_all
  show "show_nat t @ CHR ''-'' # name \<noteq> []" by simp
  have m: "CHR ''-'' \<in> set (show_nat t @ CHR ''-'' # name)" by simp
  show "show_nat t @ CHR ''-'' # name \<noteq> ''.''"
  proof
    assume "show_nat t @ CHR ''-'' # name = ''.''"
    with m have "CHR ''-'' \<in> set ''.''" by metis
    then show False by simp
  qed
  show "show_nat t @ CHR ''-'' # name \<noteq> ''..''"
  proof
    assume "show_nat t @ CHR ''-'' # name = ''..''"
    with m have "CHR ''-'' \<in> set ''..''" by metis
    then show False by simp
  qed
qed

lemma tempFilePath_leaf:
  assumes "CHR ''/'' \<notin> set name" and "d \<noteq> []"
  shows "tempFilePath_of d t name = dir_prefix d @ show_nat t @ CHR ''-'' # name"
  unfolding tempFilePath_of_def
  using path_join_leaf[OF assms(2) leaf_stamp[OF assms(1)], of t]
  by simp

lemma extname_stamp:
  assumes "CHR ''/'' \<notin> set name"
  shows "extname (dir_prefix d @ show_nat t @ CHR ''-'' # name) =
     (if CHR ''.'' \<in> set name then CHR ''.'' # after_last_dot name else [])"
proof -
  let ?s = "show_nat t @ CHR ''-'' # name"
  have lc: "last_component (dir_prefix d @ ?s) = ?s"
    using last_component_leaf[OF leaf_stamp[OF assms]] by simp
  have dot: "CHR ''.'' \<in> set ?s \<longleftrightarrow> CHR ''.'' \<in> set name"
    by (rule stamp_no_char) simp
  show ?thesis
  proof (cases "CHR ''.'' \<in> set name")
    case False
    with dot lc show ?thesis by (simp add: extname_def Let_def del: set_append)
  next
    case True
    have e: "after_last_dot ?s = after_last_dot name" by (rule after_last_dot_stamp[OF True])
    have "length name = length (stem name) + Suc (length (after_last_dot name))"
      using arg_cong[OF last_dot_split[OF True], of length] by simp
    then have len: "Suc (length (after_last_dot name)) < length ?s" by simp
    have ne: "?s \<noteq> ''..''" using leaf_stamp[OF assms, of t] by (simp add: leaf_def)
    from True dot have "CHR ''.'' \<in> set ?s" by blast
    with lc e len ne True show ?thesis by (simp add: extname_def Let_def del: set_append)
  qed
qed

lemma basename_stamp:
  assumes "CHR ''/'' \<notin> set name"
  shows "basename (dir_prefix d @ show_nat t @ CHR ''-'' # name)
           (extname (dir_prefix d @ show_nat t @ CHR ''-'' # name)) =
         show_nat t @ CHR ''-'' # stem name"
proof -
  let ?s = "show_nat t @ CHR ''-'' # name"
  have lc: "last_component (dir_prefix d @ ?s) = ?s"
    using last_component_leaf[OF leaf_stamp[OF assms]] by simp
  show ?thesis
  proof (cases "CHR ''.'' \<in> set name")
    case False
    then show ?thesis using lc by (simp add: extname_stamp[OF assms] basename_def stem_def)
  next
    case True
    let ?e = "CHR ''.'' # after_last_dot name"
    have n: "name = stem name @ ?e" by (rule last_dot_split[OF True])
    have s: "?s = (show_nat t @ CHR ''-'' # stem name) @ ?e" using n by simp
    have suf: "suffix ?e ?s" unfolding suffix_def using s by blast
    have len: "length ?s = length (show_nat t @ CHR ''-'' # stem name) + length ?e"
      using arg_cong[OF s, of length] by (simp only: length_append)
    have "take (length (a @ e) - length e) (a @ e) = a" for a e :: string by simp
    from this[of "show_nat t @ CHR ''-'' # stem name" ?e]
    have tk: "take (length ?s - length ?e) ?s = show_nat t @ CHR ''-'' # stem name"
      by (simp only: s[symmetric])
    have lt: "length ?e < length ?s" using len by simp
    have neq: "?e \<noteq> dir_prefix d @ ?s"
    proof
      assume "?e = dir_prefix d @ ?s"
      then have "length ?e = length (dir_prefix d @ ?s)" by (rule arg_cong)
      with lt show False by simp
    qed
    have le: "length ?e \<le> length (dir_prefix d @ ?s)" using lt by simp
    show ?thesis
      unfolding extname_stamp[OF assms] basename_def Let_def lc
      using True suf lt neq le tk by simp
  qed
qed

lemma stem_no_slash: "CHR ''/'' \<notin> set name \<Longrightarrow> CHR ''/'' \<notin> set (stem name @ ''.json'')"
  using set_take_subset[of "length name - Suc (length (after_last_dot name))" name]
  by (auto simp: stem_def)

lemma outputJsonPath_leaf:
  assumes "CHR ''/'' \<notin> set name" and "d \<noteq> []"
  shows "outputJsonPath_of d (tempFilePath_of d t name) =
           dir_prefix d @ show_nat t @ CHR ''-'' # stem name @ ''.json''"
proof -
  have "leaf (show_nat t @ CHR ''-'' # (stem name @ ''.json''))"
    by (rule leaf_stamp[OF stem_no_slash[OF assms(1)]])
  from path_join_leaf[OF assms(2) this]
  show ?thesis
    by (simp add: outputJsonPath_of_def tempFilePath_leaf[OF assms] basename_stamp[OF assms(1)])
qed

text \<open>
  C8 (as amended). For uploaded file names without a path separator, and jobs on one host:
  two input artifact paths are equal only when both the submission time and the file name
  are equal, and two output artifact paths are equal exactly when the submission times are
  equal and the file names agree up to their last extension.
\<close>

theorem artifact_names_collide_iff:
  assumes "CHR ''/'' \<notin> set n1" and "CHR ''/'' \<notin> set n2"
  shows "(tempFilePath_of (tempDir_of tmp) t1 n1 = tempFilePath_of (tempDir_of tmp) t2 n2
            \<longleftrightarrow> t1 = t2 \<and> n1 = n2) \<and>
         (outputJsonPath_of (tempDir_of tmp) (tempFilePath_of (tempDir_of tmp) t1 n1) =
          outputJsonPath_of (tempDir_of tmp) (tempFilePath_of (tempDir_of tmp) t2 n2)
            \<longleftrightarrow> t1 = t2 \<and> stem n1 = stem n2)"
proof -
  have d: "tempDir_of tmp \<noteq> []" by (simp add: tempDir_of_def path_join_nonempty)
  have a: "tempFilePath_of (tempDir_of tmp) t1 n1 = tempFilePath_of (tempDir_of tmp) t2 n2
            \<longleftrightarrow> t1 = t2 \<and> n1 = n2"
    using stamp_parse[of t1 n1 t2 n2]
    by (auto simp: tempFilePath_leaf[OF assms(1) d] tempFilePath_leaf[OF assms(2) d])
  have b: "outputJsonPath_of (tempDir_of tmp) (tempFilePath_of (tempDir_of tmp) t1 n1) =
           outputJsonPath_of (tempDir_of tmp) (tempFilePath_of (tempDir_of tmp) t2 n2)
            \<longleftrightarrow> t1 = t2 \<and> stem n1 = stem n2"
    using stamp_parse[of t1 "stem n1 @ ''.json''" t2 "stem n2 @ ''.json''"]
    by (auto simp: outputJsonPath_leaf[OF assms(1) d] outputJsonPath_leaf[OF assms(2) d])
  from a b show ?thesis by blast
qed

lemmas path_eval = tempFilePath_of_def tempDir_of_def path_join_def normalize_def
  normalizeString_def norm_step_def show_nat.simps digit_char_def outputJsonPath_of_def
  basename_def extname_def last_component_def after_last_dot_def scriptPath_of_def
  suffix_to_prefix Let_def

theorem artifact_names_collide_iff_witness:
  "CHR ''/'' \<notin> set ''a.mp3'' \<and> CHR ''/'' \<notin> set ''b.mp3'' \<and>
   tempFilePath_of (tempDir_of ''/tmp'') 5 ''a.mp3'' \<noteq> tempFilePath_of (tempDir_of ''/tmp'') 5 ''b.mp3'' \<and>
   outputJsonPath_of (tempDir_of ''/tmp'') (tempFilePath_of (tempDir_of ''/tmp'') 5 ''a.mp3'') \<noteq>
   outputJsonPath_of (tempDir_of ''/tmp'') (tempFilePath_of (tempDir_of ''/tmp'') 5 ''b.mp3'')"
  using artifact_names_collide_iff[of "''a.mp3''" "''b.mp3''" "''/tmp''" 5 5]
  by (simp add: stem_def after_last_dot_def)

text \<open>
  C8 as stated fails: two different file names with the same stem get the same output
  artifact in the same millisecond, and file names with \<^verbatim>\<open>..\<close> components get the same
  input artifact even at different times.
\<close>

theorem artifact_names_collide:
  "''a.mp3'' \<noteq> ''a.wav'' \<and>
   outputJsonPath_of (tempDir_of ''/tmp'') (tempFilePath_of (tempDir_of ''/tmp'') 5 ''a.mp3'') =
   outputJsonPath_of (tempDir_of ''/tmp'') (tempFilePath_of (tempDir_of ''/tmp'') 5 ''a.wav'') \<and>
   ''x/../b'' \<noteq> ''y/../b'' \<and>
   tempFilePath_of (tempDir_of ''/tmp'') 5 ''x/../b'' = tempFilePath_of (tempDir_of ''/tmp'') 6 ''y/../b''"
  by (simp add: path_eval)

section \<open>Stages of the handler\<close>

lemmas handler_eval = POST_def settle_def try_block_def prepare_def receive_def after_write_def
  run_engine_def runtime_kill_def signal_shell_def log_streams_def catch_exec_def cleanup_def cleanup_artifact_def initial_state_def respond_def
  findPythonExecutable_def candidates_def command_of_def commandParts_def logged_command_def
  engine_options_def execPromise_def command_failed_def mkdirSync_def writeFile_def readFile_def
  unlink_def existsSync_def print_def emit_def quoted_def dq_def newline_def truthy_def or_else_def
  plain_error_def error_to_string_def

lemmas sample_eval = sample_def host_fs_def upload_def engine_writes_def

lemma POST_ready:
  assumes "fst (prepare w) = Continue (command, outputJson)"
  shows "response (POST w) = fst (run_engine w command outputJson (snd (prepare w)))"
    and "at_cleanup (POST w) = snd (run_engine w command outputJson (snd (prepare w)))"
proof -
  from assms obtain s where p: "prepare w = (Continue (command, outputJson), s)"
    by (cases "prepare w") simp
  show "response (POST w) = fst (run_engine w command outputJson (snd (prepare w)))"
    by (simp add: POST_def settle_def try_block_def p case_prod_beta)
  show "at_cleanup (POST w) = snd (run_engine w command outputJson (snd (prepare w)))"
    by (simp add: POST_def settle_def try_block_def p case_prod_beta)
qed

lemma print_fields [simp]:
  "fs (print l t s) = fs s" "events (print l t s) = events s"
  "tempFilePath (print l t s) = tempFilePath s" "outputJsonPath (print l t s) = outputJsonPath s"
  "console (print l t s) = console s @ [(l, t)]"
  by (simp_all add: print_def)

lemma emit_fields [simp]:
  "fs (emit e s) = fs s" "events (emit e s) = events s @ [e]"
  "tempFilePath (emit e s) = tempFilePath s" "outputJsonPath (emit e s) = outputJsonPath s"
  "console (emit e s) = console s"
  by (simp_all add: emit_def)

lemma probe_candidates_frame:
  "fs (snd (probe_candidates w cs s)) = fs s \<and>
   tempFilePath (snd (probe_candidates w cs s)) = tempFilePath s \<and>
   outputJsonPath (snd (probe_candidates w cs s)) = outputJsonPath s \<and>
   (\<exists>ps. events (snd (probe_candidates w cs s)) = events s @ map Probe ps) \<and>
   (\<exists>ls. console (snd (probe_candidates w cs s)) = console s @ ls)"
proof (induction cs arbitrary: s)
  case Nil
  show ?case by (simp add: exI[of _ "[]"])
next
  case (Cons c cs)
  let ?s = "emit (Probe (quoted c @ '' --version'')) s"
  show ?case
  proof (cases "probe w (quoted c @ '' --version'')")
    case True
    then show ?thesis by (simp add: exI[of _ "[quoted c @ '' --version'']"] Let_def)
  next
    case False
    from Cons.IH[of ?s] obtain ps ls where
      e: "events (snd (probe_candidates w cs ?s)) = events ?s @ map Probe ps"
      and c: "console (snd (probe_candidates w cs ?s)) = console ?s @ ls"
      and r: "fs (snd (probe_candidates w cs ?s)) = fs ?s"
        "tempFilePath (snd (probe_candidates w cs ?s)) = tempFilePath ?s"
        "outputJsonPath (snd (probe_candidates w cs ?s)) = outputJsonPath ?s"
      by blast
    have "events (snd (probe_candidates w cs ?s)) = events s @ map Probe ((quoted c @ '' --version'') # ps)"
      using e by simp
    then have "\<exists>ps. events (snd (probe_candidates w cs ?s)) = events s @ map Probe ps" by blast
    with False c r show ?thesis by (simp add: Let_def)
  qed
qed

lemma probe_candidates_found:
  "fst (probe_candidates w cs s) = Inr py \<Longrightarrow> py \<in> set cs"
  by (induction cs arbitrary: s) (auto simp: Let_def split: if_splits)

lemma probe_candidates_result:
  "(\<exists>py. fst (probe_candidates w cs s) = Inr py) \<longleftrightarrow> list_ex (\<lambda>c. probe w (quoted c @ '' --version'')) cs"
  by (induction cs arbitrary: s) (auto simp: Let_def)

lemma tempFilePath_of_nonempty: "tempFilePath_of d t n \<noteq> []"
  by (simp add: tempFilePath_of_def path_join_nonempty)

lemma outputJsonPath_of_nonempty: "outputJsonPath_of d t \<noteq> []"
  by (simp add: outputJsonPath_of_def path_join_nonempty)

lemmas receive_unfold = receive_def Let_def mkdirSync_def writeFile_def

lemma receive_events:
  assumes "receive w s = (r, s')"
  shows "\<exists>es. events s' = events s @ es \<and>
           (\<forall>e\<in>set es. (\<exists>d. e = Mkdir d) \<or> (\<exists>p. e = WriteFile p \<and> tempFilePath s' = Some p))"
  using assms
  apply (simp add: receive_unfold split: sum.splits if_splits prod.splits option.splits form_value.splits)
  apply auto
  done

lemma receive_frame:
  assumes "receive w s = (r, s')"
  shows "outputJsonPath s' = outputJsonPath s"
    and "tempFilePath s' = tempFilePath s \<or> (\<exists>p. tempFilePath s' = Some p \<and> p \<noteq> [])"
    and "\<exists>ls. console s' = console s @ ls"
  using assms tempFilePath_of_nonempty
  by (auto simp: receive_unfold split: sum.splits if_splits prod.splits option.splits form_value.splits)

lemma receive_continue:
  assumes "receive w s = (Continue j, s')"
  shows "tempFilePath s' = Some (job_tempFile j)"
    and "files (fs s') (job_tempFile j) \<noteq> None"
    and "job_tempFile j \<notin> dirs (fs s')"
    and "job_hfToken j = env_HUGGING_FACE_TOKEN w"
    and "job_tempDir j = tempDir_of (os_tmpdir w)"
    and "\<exists>form name content. formData w = Inr form \<and> form ''mediaFile'' = Some (FilePart name content) \<and>
           job_tempFile j = tempFilePath_of (tempDir_of (os_tmpdir w)) (date_now w) name \<and>
           job_diarize j = (form ''diarize'' = Some (TextField ''true''))"
    and "job_diarize j \<and> \<not> truthy (job_hfToken j) \<longrightarrow>
           (ConsoleWarn, ''Diarization requested, but HUGGING_FACE_TOKEN environment variable is not set.'')
             \<in> set (console s')"
  using assms
  by (auto simp: receive_unfold split: sum.splits if_splits prod.splits option.splits form_value.splits)

lemma after_write_frame:
  assumes "after_write w j s = (r, s')"
  shows "fs s' = fs s"
    and "tempFilePath s' = tempFilePath s"
    and "outputJsonPath s' = Some (outputJsonPath_of (job_tempDir j) (job_tempFile j))"
    and "\<exists>ps. events s' = events s @ map Probe ps"
    and "\<exists>ls. console s' = console s @ ls"
proof -
  let ?s2 = "(print ConsoleLog (''Temporary file saved to: '' @ job_tempFile j) s)
               \<lparr>outputJsonPath := Some (outputJsonPath_of (job_tempDir j) (job_tempFile j))\<rparr>"
  obtain x s3 where f: "findPythonExecutable w ?s2 = (x, s3)" by (cases "findPythonExecutable w ?s2")
  from probe_candidates_frame[of w candidates ?s2] f obtain ps ls where
    p: "fs s3 = fs s" "tempFilePath s3 = tempFilePath s"
       "outputJsonPath s3 = Some (outputJsonPath_of (job_tempDir j) (job_tempFile j))"
       "events s3 = events s @ map Probe ps"
       "console s3 = console s @ (ConsoleLog, ''Temporary file saved to: '' @ job_tempFile j) # ls"
    by (auto simp: findPythonExecutable_def)
  from assms f p show "fs s' = fs s"
    by (auto simp: after_write_def Let_def split: sum.splits if_splits)
  from assms f p show "tempFilePath s' = tempFilePath s"
    by (auto simp: after_write_def Let_def split: sum.splits if_splits)
  from assms f p show "outputJsonPath s' = Some (outputJsonPath_of (job_tempDir j) (job_tempFile j))"
    by (auto simp: after_write_def Let_def split: sum.splits if_splits)
  from assms f p show "\<exists>ps. events s' = events s @ map Probe ps"
    by (auto simp: after_write_def Let_def split: sum.splits if_splits)
  from assms f p show "\<exists>ls. console s' = console s @ ls"
    by (auto simp: after_write_def Let_def split: sum.splits if_splits)
qed

lemma after_write_continue:
  assumes "after_write w j s = (Continue (command, outputJson), s')"
  shows "outputJson = outputJsonPath_of (job_tempDir j) (job_tempFile j)"
    and "\<exists>py. py \<in> set candidates \<and>
           command = command_of py (scriptPath_of (process_cwd w)) (job_tempFile j) outputJson
                       (job_diarize j) (job_hfToken j)"
    and "job_diarize j \<and> \<not> truthy (job_hfToken j) \<longrightarrow>
           (ConsoleWarn, ''Proceeding with diarization request but without HF token.'') \<in> set (console s')"
proof -
  let ?s2 = "(print ConsoleLog (''Temporary file saved to: '' @ job_tempFile j) s)
               \<lparr>outputJsonPath := Some (outputJsonPath_of (job_tempDir j) (job_tempFile j))\<rparr>"
  obtain x s3 where f: "findPythonExecutable w ?s2 = (x, s3)" by (cases "findPythonExecutable w ?s2")
  from assms f obtain py where x: "x = Inr py"
    by (cases x) (auto simp: after_write_def Let_def)
  have py: "py \<in> set candidates"
    using probe_candidates_found[of w candidates ?s2 py] f x by (simp add: findPythonExecutable_def)
  from assms f x show "outputJson = outputJsonPath_of (job_tempDir j) (job_tempFile j)"
    by (auto simp: after_write_def Let_def split: if_splits)
  from assms f x py show "\<exists>py. py \<in> set candidates \<and>
           command = command_of py (scriptPath_of (process_cwd w)) (job_tempFile j) outputJson
                       (job_diarize j) (job_hfToken j)"
    by (auto simp: after_write_def Let_def split: if_splits)
  from assms f x show "job_diarize j \<and> \<not> truthy (job_hfToken j) \<longrightarrow>
           (ConsoleWarn, ''Proceeding with diarization request but without HF token.'') \<in> set (console s')"
    by (auto simp: after_write_def Let_def split: if_splits)
qed

lemma after_write_missing_script:
  assumes "list_ex (\<lambda>c. probe w (quoted c @ '' --version'')) candidates"
    and "\<not> existsSync (fs s) (scriptPath_of (process_cwd w))"
  shows "fst (after_write w j s) = Returned (respond 500 ''Transcription script not found on server'' None)"
proof -
  let ?s2 = "(print ConsoleLog (''Temporary file saved to: '' @ job_tempFile j) s)
               \<lparr>outputJsonPath := Some (outputJsonPath_of (job_tempDir j) (job_tempFile j))\<rparr>"
  obtain x s3 where f: "findPythonExecutable w ?s2 = (x, s3)" by (cases "findPythonExecutable w ?s2")
  from probe_candidates_result[of w candidates ?s2] assms(1) f obtain py where x: "x = Inr py"
    by (auto simp: findPythonExecutable_def)
  from probe_candidates_frame[of w candidates ?s2] f have "fs s3 = fs s"
    by (simp add: findPythonExecutable_def)
  with assms(2) f x show ?thesis by (simp add: after_write_def Let_def)
qed

lemma readFile_frame:
  "fs (snd (readFile w p s)) = fs s" "events (snd (readFile w p s)) = events s @ [ReadFile p]"
  "console (snd (readFile w p s)) = console s"
  "tempFilePath (snd (readFile w p s)) = tempFilePath s"
  "outputJsonPath (snd (readFile w p s)) = outputJsonPath s"
  by (simp_all add: readFile_def Let_def split: option.splits)

lemma log_streams_fields [simp]:
  "fs (log_streams out err s) = fs s" "events (log_streams out err s) = events s"
  "tempFilePath (log_streams out err s) = tempFilePath s"
  "outputJsonPath (log_streams out err s) = outputJsonPath s"
  "console (log_streams out err s) =
     console s @ (if err = [] then [] else [(ConsoleWarn, ''Python script stderr: '' @ err)]) @
     [(ConsoleLog, ''Python script stdout: '' @ out)]"
  by (simp_all add: log_streams_def)

lemma catch_exec_frame:
  assumes "catch_exec w outputJson e s = (resp, s')"
  shows "fs s' = fs s" and "tempFilePath s' = tempFilePath s" and "outputJsonPath s' = outputJsonPath s"
    and "events s' = events s \<or> events s' = events s @ [ReadFile outputJson]"
    and "\<exists>ls. console s' = console s @ ls"
proof -
  let ?s1 = "print ConsoleError (''Error executing Python script: '' @ error_to_string e) s"
  obtain x s2 where r: "readFile w outputJson ?s1 = (x, s2)" by (cases "readFile w outputJson ?s1")
  from readFile_frame[of w outputJson ?s1] r have
    f: "fs s2 = fs s" "events s2 = events s @ [ReadFile outputJson]"
       "console s2 = console s @ [(ConsoleError, ''Error executing Python script: '' @ error_to_string e)]"
       "tempFilePath s2 = tempFilePath s" "outputJsonPath s2 = outputJsonPath s"
    by simp_all
  from assms r have "s' = s2 \<or> s' = ?s1"
    by (auto simp: catch_exec_def Let_def split: if_splits sum.splits)
  with f show "fs s' = fs s" "tempFilePath s' = tempFilePath s" "outputJsonPath s' = outputJsonPath s"
    "events s' = events s \<or> events s' = events s @ [ReadFile outputJson]"
    "\<exists>ls. console s' = console s @ ls"
    by auto
qed

lemma signal_shell_fields [simp]:
  "fs (signal_shell w c s) = fs s" "console (signal_shell w c s) = console s"
  "tempFilePath (signal_shell w c s) = tempFilePath s"
  "outputJsonPath (signal_shell w c s) = outputJsonPath s"
  "events (signal_shell w c s) = events s @ [Kill c]"
  by (simp_all add: signal_shell_def Let_def)

lemma runtime_kill_fields [simp]:
  "fs (runtime_kill w c outcome s) = fs s" "console (runtime_kill w c outcome s) = console s"
  "tempFilePath (runtime_kill w c outcome s) = tempFilePath s"
  "outputJsonPath (runtime_kill w c outcome s) = outputJsonPath s"
  by (cases outcome; simp add: runtime_kill_def)+

lemma runtime_kill_events:
  "events (runtime_kill w c outcome s) = events s \<or>
   events (runtime_kill w c outcome s) = events s @ [Kill c]"
  by (cases outcome) (simp_all add: runtime_kill_def)

lemma execPromise_resolves:
  assumes "execPromise command outcome = Inr (out, err)"
  shows "outcome = Exited 0 out err"
  using assms by (cases outcome) (auto simp: execPromise_def split: if_splits)

lemma runtime_kill_exited [simp]: "runtime_kill w c (Exited code out err) s = s"
  by (simp add: runtime_kill_def)

lemma run_engine_frame:
  assumes "run_engine w command outputJson s = (resp, s')"
  shows "fs s' = snd (engine w command engine_options (fs s))"
    and "tempFilePath s' = tempFilePath s" and "outputJsonPath s' = outputJsonPath s"
    and "\<exists>es. events s' = events s @ Exec command engine_options # es \<and>
           set es \<subseteq> {ReadFile outputJson, Kill command}"
    and "\<exists>ls. console s' = console s @ ls"
proof -
  obtain outcome f' where e: "engine w command engine_options (fs s) = (outcome, f')"
    by (cases "engine w command engine_options (fs s)")
  let ?s1 = "emit (Exec command engine_options) (s\<lparr>fs := f'\<rparr>)"
  have goal: "fs s' = f' \<and> tempFilePath s' = tempFilePath s \<and> outputJsonPath s' = outputJsonPath s \<and>
     (\<exists>es. events s' = events s @ Exec command engine_options # es \<and>
        set es \<subseteq> {ReadFile outputJson, Kill command}) \<and>
     (\<exists>ls. console s' = console s @ ls)"
  proof (cases "execPromise command outcome")
    case (Inl err)
    let ?k = "runtime_kill w command outcome ?s1"
    from assms e Inl have c: "catch_exec w outputJson err ?k = (resp, s')"
      by (simp add: run_engine_def)
    from runtime_kill_events[of w command outcome ?s1]
    have k: "events ?k = events s @ [Exec command engine_options] \<or>
             events ?k = events s @ [Exec command engine_options, Kill command]" by simp
    from catch_exec_frame[OF c] k show ?thesis by auto
  next
    case (Inr streams)
    obtain out err where s: "streams = (out, err)" by (cases streams)
    have oc: "outcome = Exited 0 out err" using Inr s by (simp add: execPromise_resolves)
    let ?s3 = "log_streams out err ?s1"
    have s3: "fs ?s3 = f'" "tempFilePath ?s3 = tempFilePath s" "outputJsonPath ?s3 = outputJsonPath s"
      "events ?s3 = events s @ [Exec command engine_options]" "\<exists>ls. console ?s3 = console s @ ls"
      by auto
    show ?thesis
    proof (cases "existsSync f' outputJson")
      case False
      with assms e Inr s s3 oc show ?thesis by (auto simp: run_engine_def Let_def)
    next
      case True
      obtain x s4 where r: "readFile w outputJson ?s3 = (x, s4)" by (cases "readFile w outputJson ?s3")
      from readFile_frame[of w outputJson ?s3] r s3 have
        s4: "fs s4 = f'" "tempFilePath s4 = tempFilePath s" "outputJsonPath s4 = outputJsonPath s"
        "events s4 = events s @ [Exec command engine_options, ReadFile outputJson]"
        "\<exists>ls. console s4 = console s @ ls"
        by auto
      show ?thesis
      proof (cases x)
        case (Inl readErr)
        with assms e Inr s True r oc have c: "catch_exec w outputJson readErr s4 = (resp, s')"
          by (simp add: run_engine_def Let_def)
        from catch_exec_frame[OF c] s4 show ?thesis by auto
      next
        case (Inr doc)
        note doc = this
        show ?thesis
        proof (cases "json_parse w doc")
          case (Inl syntaxErr)
          with assms e \<open>execPromise command outcome = Inr streams\<close> s True r doc oc
          have c: "catch_exec w outputJson syntaxErr s4 = (resp, s')"
            by (simp add: run_engine_def Let_def)
          from catch_exec_frame[OF c] s4 show ?thesis by auto
        next
          case (Inr j)
          with assms e \<open>execPromise command outcome = Inr streams\<close> s True r doc oc
          have "s' = s4" by (simp add: run_engine_def Let_def)
          with s4 show ?thesis by auto
        qed
      qed
    qed
  qed
  with e show "fs s' = snd (engine w command engine_options (fs s))"
    and "tempFilePath s' = tempFilePath s" and "outputJsonPath s' = outputJsonPath s"
    and "\<exists>es. events s' = events s @ Exec command engine_options # es \<and>
           set es \<subseteq> {ReadFile outputJson, Kill command}"
    and "\<exists>ls. console s' = console s @ ls"
    by simp_all
qed

lemma cleanup_artifact_frame:
  "tempFilePath (cleanup_artifact w what var s) = tempFilePath s"
  "outputJsonPath (cleanup_artifact w what var s) = outputJsonPath s"
  "events (cleanup_artifact w what var s) = events s \<or>
     (\<exists>p. var = Some p \<and> events (cleanup_artifact w what var s) = events s @ [Unlink p])"
  "\<exists>ls. console (cleanup_artifact w what var s) = console s @ ls"
  by (auto simp: cleanup_artifact_def unlink_def Let_def split: option.splits)

lemma cleanup_artifact_unlinks:
  assumes "p \<noteq> []" and "existsSync (fs s) p"
  shows "events (cleanup_artifact w what (Some p) s) = events s @ [Unlink p]"
  using assms by (auto simp: cleanup_artifact_def unlink_def Let_def split: option.splits)

lemma cleanup_artifact_fs:
  "existsSync (fs (cleanup_artifact w what var s)) q \<Longrightarrow> existsSync (fs s) q"
  by (auto simp: cleanup_artifact_def unlink_def Let_def existsSync_def split: option.splits if_splits)

lemma cleanup_artifact_still_there:
  assumes "existsSync (fs s) q" and "\<not> existsSync (fs (cleanup_artifact w what var s)) q"
  shows "var = Some q"
  using assms
  by (auto simp: cleanup_artifact_def unlink_def Let_def existsSync_def split: option.splits if_splits)

lemma cleanup_artifact_removes:
  assumes "p \<noteq> []" and "files (fs s) p \<noteq> None" and "p \<notin> dirs (fs s)" and "unlink_error w p = None"
  shows "\<not> existsSync (fs (cleanup_artifact w what (Some p) s)) p"
  using assms by (auto simp: cleanup_artifact_def unlink_def Let_def existsSync_def split: option.splits)

lemma cleanup_artifact_events:
  "\<exists>ps. events (cleanup_artifact w what var s) = events s @ map Unlink ps"
proof -
  from cleanup_artifact_frame(3)[of w what var s]
  consider (same) "events (cleanup_artifact w what var s) = events s"
    | (one) p where "events (cleanup_artifact w what var s) = events s @ [Unlink p]"
    by blast
  then show ?thesis
  proof cases
    case same
    then have "events (cleanup_artifact w what var s) = events s @ map Unlink []" by simp
    then show ?thesis by (rule exI)
  next
    case one
    then have "events (cleanup_artifact w what var s) = events s @ map Unlink [p]" by simp
    then show ?thesis by (rule exI)
  qed
qed

lemma cleanup_events: "\<exists>ps. events (cleanup w s) = events s @ map Unlink ps"
proof -
  let ?s1 = "cleanup_artifact w ''input'' (tempFilePath s) s"
  from cleanup_artifact_events[of w "''input''" "tempFilePath s" s]
  obtain ps where 1: "events ?s1 = events s @ map Unlink ps" by blast
  from cleanup_artifact_events[of w "''output''" "outputJsonPath s" ?s1]
  obtain qs where 2: "events (cleanup w s) = events ?s1 @ map Unlink qs"
    unfolding cleanup_def by blast
  from 1 2 have "events (cleanup w s) = events s @ map Unlink (ps @ qs)" by simp
  then show ?thesis by (rule exI)
qed

lemma cleanup_console: "\<exists>ls. console (cleanup w s) = console s @ ls"
proof -
  let ?s1 = "cleanup_artifact w ''input'' (tempFilePath s) s"
  from cleanup_artifact_frame(4)[of w "''input''" "tempFilePath s" s]
  obtain l1 where 1: "console ?s1 = console s @ l1" by blast
  from cleanup_artifact_frame(4)[of w "''output''" "outputJsonPath s" ?s1]
  obtain l2 where 2: "console (cleanup w s) = console ?s1 @ l2"
    unfolding cleanup_def by blast
  from 1 2 have "console (cleanup w s) = console s @ (l1 @ l2)" by simp
  then show ?thesis by (rule exI)
qed

lemma cleanup_unlinks_input:
  assumes "tempFilePath s = Some p" and "p \<noteq> []" and "existsSync (fs s) p"
  shows "Unlink p \<in> set (events (cleanup w s))"
proof -
  let ?s1 = "cleanup_artifact w ''input'' (tempFilePath s) s"
  have 1: "events ?s1 = events s @ [Unlink p]"
    using cleanup_artifact_unlinks[OF assms(2,3), of w "''input''"] assms(1) by simp
  from cleanup_artifact_events[of w "''output''" "outputJsonPath s" ?s1]
  obtain qs where 2: "events (cleanup w s) = events ?s1 @ map Unlink qs"
    unfolding cleanup_def by blast
  show ?thesis unfolding 2 1 by simp
qed

lemma cleanup_unlinks_output:
  assumes "outputJsonPath s = Some q" and "q \<noteq> []" and "existsSync (fs s) q"
  shows "Unlink q \<in> set (events (cleanup w s))"
proof -
  let ?s1 = "cleanup_artifact w ''input'' (tempFilePath s) s"
  show ?thesis
  proof (cases "existsSync (fs ?s1) q")
    case True
    from cleanup_artifact_unlinks[OF assms(2) True, of w "''output''"]
    have "events (cleanup w s) = events ?s1 @ [Unlink q]"
      unfolding cleanup_def assms(1) .
    then show ?thesis by simp
  next
    case False
    from cleanup_artifact_still_there[OF assms(3) False] have t: "tempFilePath s = Some q" .
    from cleanup_unlinks_input[OF t assms(2,3)] show ?thesis .
  qed
qed

lemma cleanup_removes_input:
  assumes "tempFilePath s = Some p" and "p \<noteq> []" and "files (fs s) p \<noteq> None" and "p \<notin> dirs (fs s)"
    and "unlink_error w p = None"
  shows "\<not> existsSync (fs (cleanup w s)) p"
proof -
  let ?s1 = "cleanup_artifact w ''input'' (tempFilePath s) s"
  have "\<not> existsSync (fs ?s1) p"
    using cleanup_artifact_removes[OF assms(2-5), of "''input''"] assms(1) by simp
  then show ?thesis
    unfolding cleanup_def using cleanup_artifact_fs by blast
qed

lemma prepare_state:
  assumes "prepare w = (r, s)"
  shows "\<forall>e\<in>set (events s). (\<exists>d. e = Mkdir d) \<or> (\<exists>p. e = WriteFile p \<and> tempFilePath s = Some p) \<or> (\<exists>c. e = Probe c)"
    and "tempFilePath s = None \<or> (\<exists>p. tempFilePath s = Some p \<and> p \<noteq> [])"
    and "outputJsonPath s = None \<or> (\<exists>q. outputJsonPath s = Some q \<and> q \<noteq> [])"
proof -
  obtain r1 s1 where rc: "receive w (initial_state w) = (r1, s1)"
    by (cases "receive w (initial_state w)")
  from receive_events[OF rc] have e1:
    "\<forall>e\<in>set (events s1). (\<exists>d. e = Mkdir d) \<or> (\<exists>p. e = WriteFile p \<and> tempFilePath s1 = Some p)"
    by (auto simp: initial_state_def)
  from receive_frame(1,2)[OF rc] have p1:
    "outputJsonPath s1 = None" "tempFilePath s1 = None \<or> (\<exists>p. tempFilePath s1 = Some p \<and> p \<noteq> [])"
    by (auto simp: initial_state_def)
  have goal: "(\<forall>e\<in>set (events s). (\<exists>d. e = Mkdir d) \<or> (\<exists>p. e = WriteFile p \<and> tempFilePath s = Some p) \<or> (\<exists>c. e = Probe c)) \<and>
    (tempFilePath s = None \<or> (\<exists>p. tempFilePath s = Some p \<and> p \<noteq> [])) \<and>
    (outputJsonPath s = None \<or> (\<exists>q. outputJsonPath s = Some q \<and> q \<noteq> []))"
  proof (cases r1)
    case (Threw e)
    with assms rc have "s = s1" by (simp add: prepare_def)
    with e1 p1 show ?thesis by auto
  next
    case (Returned resp)
    with assms rc have "s = s1" by (simp add: prepare_def)
    with e1 p1 show ?thesis by auto
  next
    case (Continue j)
    with assms rc have aw: "after_write w j s1 = (r, s)" by (simp add: prepare_def)
    from after_write_frame(4)[OF aw] obtain ps where ev: "events s = events s1 @ map Probe ps" by blast
    from after_write_frame(2,3)[OF aw] have t: "tempFilePath s = tempFilePath s1"
      and o: "outputJsonPath s = Some (outputJsonPath_of (job_tempDir j) (job_tempFile j))" by simp_all
    have "\<forall>e\<in>set (events s). (\<exists>d. e = Mkdir d) \<or> (\<exists>p. e = WriteFile p \<and> tempFilePath s = Some p) \<or> (\<exists>c. e = Probe c)"
      unfolding ev t using e1 by auto
    moreover have "tempFilePath s = None \<or> (\<exists>p. tempFilePath s = Some p \<and> p \<noteq> [])"
      unfolding t by (rule p1(2))
    moreover have "outputJsonPath s = None \<or> (\<exists>q. outputJsonPath s = Some q \<and> q \<noteq> [])"
      unfolding o by (simp add: outputJsonPath_of_nonempty)
    ultimately show ?thesis by blast
  qed
  from goal show "\<forall>e\<in>set (events s). (\<exists>d. e = Mkdir d) \<or> (\<exists>p. e = WriteFile p \<and> tempFilePath s = Some p) \<or> (\<exists>c. e = Probe c)"
    and "tempFilePath s = None \<or> (\<exists>p. tempFilePath s = Some p \<and> p \<noteq> [])"
    and "outputJsonPath s = None \<or> (\<exists>q. outputJsonPath s = Some q \<and> q \<noteq> [])"
    by blast+
qed

lemma try_block_state:
  assumes "try_block w = (r, s)"
  shows "\<forall>e\<in>set (events s). (\<exists>d. e = Mkdir d) \<or> (\<exists>p. e = WriteFile p \<and> tempFilePath s = Some p) \<or>
           (\<exists>c. e = Probe c) \<or> (\<exists>c. e = Exec c engine_options) \<or> (\<exists>p. e = ReadFile p) \<or>
           (\<exists>c. e = Kill c)"
    and "tempFilePath s = None \<or> (\<exists>p. tempFilePath s = Some p \<and> p \<noteq> [])"
    and "outputJsonPath s = None \<or> (\<exists>q. outputJsonPath s = Some q \<and> q \<noteq> [])"
proof -
  obtain r0 s0 where p: "prepare w = (r0, s0)" by (cases "prepare w")
  note ps = prepare_state[OF p]
  have goal: "(\<forall>e\<in>set (events s). (\<exists>d. e = Mkdir d) \<or> (\<exists>p. e = WriteFile p \<and> tempFilePath s = Some p) \<or>
           (\<exists>c. e = Probe c) \<or> (\<exists>c. e = Exec c engine_options) \<or> (\<exists>p. e = ReadFile p) \<or>
           (\<exists>c. e = Kill c)) \<and>
    (tempFilePath s = None \<or> (\<exists>p. tempFilePath s = Some p \<and> p \<noteq> [])) \<and>
    (outputJsonPath s = None \<or> (\<exists>q. outputJsonPath s = Some q \<and> q \<noteq> []))"
  proof (cases r0)
    case (Threw e)
    with assms p have "s = s0" by (simp add: try_block_def)
    with ps show ?thesis by auto
  next
    case (Returned resp)
    with assms p have "s = s0" by (simp add: try_block_def)
    with ps show ?thesis by auto
  next
    case (Continue co)
    obtain c out where co: "co = (c, out)" by (cases co)
    obtain resp where re: "run_engine w c out s0 = (resp, s)"
      using assms p Continue co by (cases "run_engine w c out s0") (simp add: try_block_def)
    from run_engine_frame(4)[OF re] obtain es where
      ev: "events s = events s0 @ Exec c engine_options # es" and es: "set es \<subseteq> {ReadFile out, Kill c}" by blast
    note t = run_engine_frame(2)[OF re] and o = run_engine_frame(3)[OF re]
    have "\<forall>e\<in>set (events s). (\<exists>d. e = Mkdir d) \<or> (\<exists>p. e = WriteFile p \<and> tempFilePath s = Some p) \<or>
           (\<exists>c. e = Probe c) \<or> (\<exists>c. e = Exec c engine_options) \<or> (\<exists>p. e = ReadFile p) \<or>
           (\<exists>c. e = Kill c)"
      unfolding ev t using ps(1) es by auto
    with ps(2,3) t o show ?thesis by simp
  qed
  from goal show "\<forall>e\<in>set (events s). (\<exists>d. e = Mkdir d) \<or> (\<exists>p. e = WriteFile p \<and> tempFilePath s = Some p) \<or>
           (\<exists>c. e = Probe c) \<or> (\<exists>c. e = Exec c engine_options) \<or> (\<exists>p. e = ReadFile p) \<or>
           (\<exists>c. e = Kill c)"
    and "tempFilePath s = None \<or> (\<exists>p. tempFilePath s = Some p \<and> p \<noteq> [])"
    and "outputJsonPath s = None \<or> (\<exists>q. outputJsonPath s = Some q \<and> q \<noteq> [])"
    by blast+
qed

lemma settle_state:
  shows "\<forall>e\<in>set (events (snd (settle w))). (\<exists>d. e = Mkdir d) \<or>
           (\<exists>p. e = WriteFile p \<and> tempFilePath (snd (settle w)) = Some p) \<or>
           (\<exists>c. e = Probe c) \<or> (\<exists>c. e = Exec c engine_options) \<or> (\<exists>p. e = ReadFile p) \<or>
           (\<exists>c. e = Kill c)"
    and "tempFilePath (snd (settle w)) = None \<or> (\<exists>p. tempFilePath (snd (settle w)) = Some p \<and> p \<noteq> [])"
    and "outputJsonPath (snd (settle w)) = None \<or> (\<exists>q. outputJsonPath (snd (settle w)) = Some q \<and> q \<noteq> [])"
proof -
  obtain r s where t: "try_block w = (r, s)" by (cases "try_block w")
  have "events (snd (settle w)) = events s \<and> tempFilePath (snd (settle w)) = tempFilePath s \<and>
        outputJsonPath (snd (settle w)) = outputJsonPath s"
    by (cases r) (simp_all add: settle_def t)
  with try_block_state[OF t]
  show "\<forall>e\<in>set (events (snd (settle w))). (\<exists>d. e = Mkdir d) \<or>
           (\<exists>p. e = WriteFile p \<and> tempFilePath (snd (settle w)) = Some p) \<or>
           (\<exists>c. e = Probe c) \<or> (\<exists>c. e = Exec c engine_options) \<or> (\<exists>p. e = ReadFile p) \<or>
           (\<exists>c. e = Kill c)"
    and "tempFilePath (snd (settle w)) = None \<or> (\<exists>p. tempFilePath (snd (settle w)) = Some p \<and> p \<noteq> [])"
    and "outputJsonPath (snd (settle w)) = None \<or> (\<exists>q. outputJsonPath (snd (settle w)) = Some q \<and> q \<noteq> [])"
    by simp_all
qed

lemma POST_fields:
  "response (POST w) = fst (settle w)" "at_cleanup (POST w) = snd (settle w)"
  "final (POST w) = cleanup w (snd (settle w))"
  by (simp_all add: POST_def case_prod_beta)

section \<open>Cleanup\<close>

lemma probe_candidates_unlink_error:
  "probe_candidates (w\<lparr>unlink_error := u\<rparr>) cs s = probe_candidates w cs s"
  by (induction cs arbitrary: s) (simp_all add: Let_def)

lemma settle_unlink_error: "settle (w\<lparr>unlink_error := u\<rparr>) = settle w"
proof -
  have r: "receive (w\<lparr>unlink_error := u\<rparr>) s = receive w s" for s
    by (simp add: receive_def mkdirSync_def writeFile_def Let_def
          cong: sum.case_cong option.case_cong form_value.case_cong prod.case_cong if_cong)
  have a: "after_write (w\<lparr>unlink_error := u\<rparr>) j s = after_write w j s" for j s
    by (simp add: after_write_def findPythonExecutable_def probe_candidates_unlink_error Let_def
          cong: sum.case_cong prod.case_cong if_cong)
  have p: "prepare (w\<lparr>unlink_error := u\<rparr>) = prepare w"
    by (simp add: prepare_def r a initial_state_def cong: step.case_cong prod.case_cong)
  have rd: "readFile (w\<lparr>unlink_error := u\<rparr>) q s = readFile w q s" for q s
    by (simp add: readFile_def Let_def cong: option.case_cong)
  have c: "catch_exec (w\<lparr>unlink_error := u\<rparr>) out e s = catch_exec w out e s" for out e s
    by (simp add: catch_exec_def rd Let_def cong: sum.case_cong prod.case_cong if_cong)
  have k: "runtime_kill (w\<lparr>unlink_error := u\<rparr>) cmd outcome s = runtime_kill w cmd outcome s"
    for cmd outcome s
    by (simp add: runtime_kill_def signal_shell_def cong: exec_outcome.case_cong)
  have e: "run_engine (w\<lparr>unlink_error := u\<rparr>) cmd out s = run_engine w cmd out s" for cmd out s
    by (simp add: run_engine_def c rd k Let_def case_prod_beta
          cong: sum.case_cong prod.case_cong if_cong)
  have t: "try_block (w\<lparr>unlink_error := u\<rparr>) = try_block w"
    by (simp add: try_block_def p e cong: step.case_cong prod.case_cong)
  show ?thesis by (simp add: settle_def t)
qed

text \<open>
  C2. For every request that wrote (or tried to write) its input artifact: the input path is
  the one the cleanup phase looks at; each of the two artifacts that exists when the
  \<^verbatim>\<open>finally\<close> block starts has its deletion attempted before the handler returns;
  no deletion happens earlier; and the response does not depend on which deletions fail.
  The statement holds for every environment, hence on every exit path.
\<close>

theorem cleanup_on_every_exit:
  assumes "WriteFile p \<in> set (events (final (POST w)))"
  shows "tempFilePath (at_cleanup (POST w)) = Some p \<and>
         (existsSync (fs (at_cleanup (POST w))) p \<longrightarrow> Unlink p \<in> set (events (final (POST w)))) \<and>
         (\<forall>q. outputJsonPath (at_cleanup (POST w)) = Some q \<and> existsSync (fs (at_cleanup (POST w))) q
              \<longrightarrow> Unlink q \<in> set (events (final (POST w)))) \<and>
         (\<forall>q. Unlink q \<notin> set (events (at_cleanup (POST w)))) \<and>
         response (POST (w\<lparr>unlink_error := u\<rparr>)) = response (POST w)"
proof -
  let ?s = "snd (settle w)"
  note st = settle_state[of w]
  from cleanup_events[of w ?s] obtain ps where
    ev: "events (cleanup w ?s) = events ?s @ map Unlink ps" by blast
  from assms have "WriteFile p \<in> set (events ?s)"
    by (auto simp: POST_fields ev)
  with st(1) have t: "tempFilePath ?s = Some p" by blast
  with st(2) have pn: "p \<noteq> []" by auto
  have 1: "existsSync (fs ?s) p \<longrightarrow> Unlink p \<in> set (events (cleanup w ?s))"
    using cleanup_unlinks_input[OF t pn] by blast
  have 2: "\<forall>q. outputJsonPath ?s = Some q \<and> existsSync (fs ?s) q \<longrightarrow> Unlink q \<in> set (events (cleanup w ?s))"
  proof (intro allI impI)
    fix q assume q: "outputJsonPath ?s = Some q \<and> existsSync (fs ?s) q"
    with st(3) have "q \<noteq> []" by auto
    with q show "Unlink q \<in> set (events (cleanup w ?s))"
      using cleanup_unlinks_output by blast
  qed
  have 3: "\<forall>q. Unlink q \<notin> set (events ?s)" using st(1) by blast
  have 4: "response (POST (w\<lparr>unlink_error := u\<rparr>)) = response (POST w)"
    by (simp add: POST_fields settle_unlink_error)
  from t 1 2 3 4 show ?thesis by (simp add: POST_fields)
qed

theorem cleanup_on_every_exit_witness:
  "WriteFile ''/tmp/whisper-uploads/5-a.mp3'' \<in> set (events (final (POST sample))) \<and>
   Unlink ''/tmp/whisper-uploads/5-a.mp3'' \<in> set (events (final (POST sample))) \<and>
   Unlink ''/tmp/whisper-uploads/5-a.json'' \<in> set (events (final (POST sample)))"
proof -
  have w: "WriteFile ''/tmp/whisper-uploads/5-a.mp3'' \<in> set (events (final (POST sample)))"
    by (simp add: sample_eval handler_eval path_eval)
  have i: "existsSync (fs (at_cleanup (POST sample))) ''/tmp/whisper-uploads/5-a.mp3''"
    by (simp add: sample_eval handler_eval path_eval)
  have o: "outputJsonPath (at_cleanup (POST sample)) = Some ''/tmp/whisper-uploads/5-a.json'' \<and>
           existsSync (fs (at_cleanup (POST sample))) ''/tmp/whisper-uploads/5-a.json''"
    by (simp add: sample_eval handler_eval path_eval)
  from cleanup_on_every_exit[OF w] i o w show ?thesis by blast
qed

section \<open>Results of the engine\<close>

lemma run_engine_success:
  assumes "engine w command engine_options (fs s) = (Exited 0 out err, f')"
    and "files f' outputJson = Some doc"
    and "read_error w outputJson = None"
    and "json_parse w doc = Inr j"
  shows "fst (run_engine w command outputJson s) = \<lparr>status = 200, body = TranscriptionBody j\<rparr>"
  using assms
  by (simp add: run_engine_def log_streams_def execPromise_def readFile_def existsSync_def emit_def print_def Let_def)

text \<open>
  C5. When the job reaches the engine, the engine exits with status zero, and the output
  path then holds a document that can be read and that the parser accepts, the response is
  HTTP 200 with the parsed document under \<^verbatim>\<open>transcription\<close>.
\<close>

theorem valid_output_is_echoed:
  assumes "fst (prepare w) = Continue (command, outputJson)"
    and "engine w command engine_options (fs (snd (prepare w))) = (Exited 0 out err, f')"
    and "files f' outputJson = Some doc"
    and "read_error w outputJson = None"
    and "json_parse w doc = Inr j"
  shows "response (POST w) = \<lparr>status = 200, body = TranscriptionBody j\<rparr>"
  using POST_ready(1)[OF assms(1)] run_engine_success[OF assms(2-5)] by simp

lemma sample_prepare:
  "fst (prepare sample) = Continue
     (quoted ''python3'' @ '' '' @ quoted ''/app/src/whisper/transcribe.py'' @ '' --input '' @
      quoted ''/tmp/whisper-uploads/5-a.mp3'' @ '' --output-json '' @ quoted ''/tmp/whisper-uploads/5-a.json'',
      ''/tmp/whisper-uploads/5-a.json'')"
  by (simp add: sample_eval handler_eval path_eval)

theorem valid_output_is_echoed_witness:
  "response (POST sample) = \<lparr>status = 200, body = TranscriptionBody ''{}''\<rparr>"
proof -
  let ?c = "quoted ''python3'' @ '' '' @ quoted ''/app/src/whisper/transcribe.py'' @ '' --input '' @
      quoted ''/tmp/whisper-uploads/5-a.mp3'' @ '' --output-json '' @ quoted ''/tmp/whisper-uploads/5-a.json''"
  let ?o = "''/tmp/whisper-uploads/5-a.json''"
  let ?f = "(fs (snd (prepare sample)))\<lparr>files := (files (fs (snd (prepare sample))))(?o \<mapsto> ''{}'')\<rparr>"
  have 1: "fst (prepare sample) = Continue (?c, ?o)" by (rule sample_prepare)
  have 2: "engine sample ?c engine_options (fs (snd (prepare sample))) = (Exited 0 ''done'' [], ?f)"
    by (simp add: sample_def engine_writes_def)
  have 3: "files ?f ?o = Some ''{}''" by simp
  have 4: "read_error sample ?o = None" by (simp add: sample_def)
  have 5: "json_parse sample ''{}'' = Inr ''{}''" by (simp add: sample_def)
  show ?thesis by (rule valid_output_is_echoed[OF 1 2 3 4 5])
qed

lemma run_engine_no_output:
  assumes "engine w command engine_options (fs s) = (Exited 0 out err, f')"
    and "\<not> existsSync f' outputJson"
  shows "fst (run_engine w command outputJson s) =
           \<lparr>status = 500,
            body = ErrorBody ''Transcription failed: Output file not generated.''
                     (Some (if err = [] then out else err))\<rparr>"
  using assms by (simp add: run_engine_def execPromise_def respond_def Let_def)

text \<open>
  C6. When the job reaches the engine and the engine exits with status zero, but the output
  artifact does not exist afterwards, the response is HTTP 500 with the error
  \<^verbatim>\<open>Transcription failed: Output file not generated.\<close> and the captured stderr as
  details, or the captured stdout when stderr is empty.
\<close>

theorem missing_output_is_reported:
  assumes "fst (prepare w) = Continue (command, outputJson)"
    and "engine w command engine_options (fs (snd (prepare w))) = (Exited 0 out err, f')"
    and "\<not> existsSync f' outputJson"
  shows "response (POST w) =
           \<lparr>status = 500,
            body = ErrorBody ''Transcription failed: Output file not generated.''
                     (Some (if err = [] then out else err))\<rparr>"
  using POST_ready(1)[OF assms(1)] run_engine_no_output[OF assms(2,3)] by simp

lemma sample_prepare_engine:
  "fst (prepare (sample\<lparr>engine := e\<rparr>)) = Continue
     (quoted ''python3'' @ '' '' @ quoted ''/app/src/whisper/transcribe.py'' @ '' --input '' @
      quoted ''/tmp/whisper-uploads/5-a.mp3'' @ '' --output-json '' @ quoted ''/tmp/whisper-uploads/5-a.json'',
      ''/tmp/whisper-uploads/5-a.json'')"
  by (simp add: sample_eval handler_eval path_eval)

theorem missing_output_is_reported_witness:
  "response (POST (sample\<lparr>engine := engine_writes (Exited 0 ''done'' ''warn'') None\<rparr>)) =
     \<lparr>status = 500,
      body = ErrorBody ''Transcription failed: Output file not generated.'' (Some ''warn'')\<rparr>"
proof -
  let ?w = "sample\<lparr>engine := engine_writes (Exited 0 ''done'' ''warn'') None\<rparr>"
  let ?c = "quoted ''python3'' @ '' '' @ quoted ''/app/src/whisper/transcribe.py'' @ '' --input '' @
      quoted ''/tmp/whisper-uploads/5-a.mp3'' @ '' --output-json '' @ quoted ''/tmp/whisper-uploads/5-a.json''"
  let ?o = "''/tmp/whisper-uploads/5-a.json''"
  have 1: "fst (prepare ?w) = Continue (?c, ?o)" by (rule sample_prepare_engine)
  have 2: "engine ?w ?c engine_options (fs (snd (prepare ?w))) = (Exited 0 ''done'' ''warn'', fs (snd (prepare ?w)))"
    by (simp add: sample_def engine_writes_def)
  have 3: "\<not> existsSync (fs (snd (prepare ?w))) ?o"
    by (simp add: sample_eval handler_eval path_eval)
  from missing_output_is_reported[OF 1 2 3] show ?thesis by simp
qed

lemma catch_exec_response:
  "fst (catch_exec w outputJson e s) =
     \<lparr>status = 500,
      body = ErrorBody ''Failed to execute transcription script.''
        (Some (or_else (err_stderr e) (or_else (err_stdout e)
                 (or_else (Some (message e)) ''Unknown execution error'')) @
               (if read_error w outputJson = None then
                  (case files (fs s) outputJson of
                     Some doc \<Rightarrow> newline # ''Partial output: '' @ doc
                   | None \<Rightarrow> [])
                else [])))\<rparr>"
  by (auto simp: catch_exec_def readFile_def respond_def existsSync_def Let_def split: option.splits)

lemma execPromise_rejects:
  assumes "execPromise command outcome = Inl e"
  shows "err_stderr e = Some (captured_stderr outcome)" and "err_stdout e = Some (captured_stdout outcome)"
    and "message e \<noteq> []"
  using assms
  by (cases outcome; auto simp: execPromise_def command_failed_def split: if_splits)+

lemma run_engine_rejected:
  assumes "engine w command engine_options (fs s) = (outcome, f')"
    and "execPromise command outcome = Inl e"
  shows "fst (run_engine w command outputJson s) =
           fst (catch_exec w outputJson e
                  (runtime_kill w command outcome (emit (Exec command engine_options) (s\<lparr>fs := f'\<rparr>))))"
  using assms by (simp add: run_engine_def)

text \<open>
  C7. When the job reaches the engine and the command is rejected (non-zero exit status,
  timeout or overflow), the response is HTTP 500 with the error
  \<^verbatim>\<open>Failed to execute transcription script.\<close>; its details are the captured stderr,
  else the captured stdout, else the error's message, followed by the raw content of the
  output artifact exactly when that artifact can be read. A missing or unreadable artifact
  changes nothing else in the response.
\<close>

theorem failure_keeps_its_classification:
  assumes "fst (prepare w) = Continue (command, outputJson)"
    and "engine w command engine_options (fs (snd (prepare w))) = (outcome, f')"
    and "execPromise command outcome = Inl execError"
  shows "response (POST w) =
           \<lparr>status = 500,
            body = ErrorBody ''Failed to execute transcription script.''
              (Some ((if captured_stderr outcome = []
                      then if captured_stdout outcome = [] then message execError
                           else captured_stdout outcome
                      else captured_stderr outcome) @
                     (if read_error w outputJson = None then
                        (case files f' outputJson of
                           Some doc \<Rightarrow> newline # ''Partial output: '' @ doc
                         | None \<Rightarrow> [])
                      else [])))\<rparr>"
  using POST_ready(1)[OF assms(1)] run_engine_rejected[OF assms(2,3)] execPromise_rejects[OF assms(3)]
  by (simp add: catch_exec_response or_else_def)

theorem failure_keeps_its_classification_witness:
  "response (POST (sample\<lparr>engine := engine_writes (TimedOut ''out'' ''boom'') (Some ''{par''),
                           read_error := (\<lambda>p. None)\<rparr>)) =
     \<lparr>status = 500,
      body = ErrorBody ''Failed to execute transcription script.''
               (Some (''boom'' @ [newline] @ ''Partial output: {par''))\<rparr> \<and>
   response (POST (sample\<lparr>engine := engine_writes (Exited 2 ''out'' ''boom'') (Some ''{par''),
                           read_error := (\<lambda>p. Some (plain_error ''Error'' ''EACCES''))\<rparr>)) =
     \<lparr>status = 500,
      body = ErrorBody ''Failed to execute transcription script.'' (Some ''boom'')\<rparr>"
proof -
  let ?c = "quoted ''python3'' @ '' '' @ quoted ''/app/src/whisper/transcribe.py'' @ '' --input '' @
      quoted ''/tmp/whisper-uploads/5-a.mp3'' @ '' --output-json '' @ quoted ''/tmp/whisper-uploads/5-a.json''"
  let ?o = "''/tmp/whisper-uploads/5-a.json''"
  let ?w1 = "sample\<lparr>engine := engine_writes (TimedOut ''out'' ''boom'') (Some ''{par''),
                           read_error := (\<lambda>p. None)\<rparr>"
  let ?w2 = "sample\<lparr>engine := engine_writes (Exited 2 ''out'' ''boom'') (Some ''{par''),
                           read_error := (\<lambda>p. Some (plain_error ''Error'' ''EACCES''))\<rparr>"
  let ?f1 = "(fs (snd (prepare ?w1)))\<lparr>files := (files (fs (snd (prepare ?w1))))(?o \<mapsto> ''{par'')\<rparr>"
  let ?f2 = "(fs (snd (prepare ?w2)))\<lparr>files := (files (fs (snd (prepare ?w2))))(?o \<mapsto> ''{par'')\<rparr>"
  have a1: "fst (prepare ?w1) = Continue (?c, ?o)" by (simp add: sample_eval handler_eval path_eval)
  have a2: "engine ?w1 ?c engine_options (fs (snd (prepare ?w1))) = (TimedOut ''out'' ''boom'', ?f1)"
    by (simp add: sample_def engine_writes_def)
  have a3: "execPromise ?c (TimedOut ''out'' ''boom'') = Inl (command_failed ?c None True ''out'' ''boom'')"
    by (simp add: execPromise_def)
  have b1: "fst (prepare ?w2) = Continue (?c, ?o)" by (simp add: sample_eval handler_eval path_eval)
  have b2: "engine ?w2 ?c engine_options (fs (snd (prepare ?w2))) = (Exited 2 ''out'' ''boom'', ?f2)"
    by (simp add: sample_def engine_writes_def)
  have b3: "execPromise ?c (Exited 2 ''out'' ''boom'') = Inl (command_failed ?c (Some 2) False ''out'' ''boom'')"
    by (simp add: execPromise_def)
  from failure_keeps_its_classification[OF a1 a2 a3] failure_keeps_its_classification[OF b1 b2 b3]
  show ?thesis by (simp add: sample_def plain_error_def)
qed

section \<open>Requests that reach, or do not reach, the engine\<close>

lemma executed_append: "executed (xs @ ys) = executed xs @ executed ys"
  by (induction xs rule: executed.induct) simp_all

lemma executed_none:
  assumes "\<forall>e\<in>set es. \<forall>c opts. e \<noteq> Exec c opts"
  shows "executed es = []"
  using assms by (induction es rule: executed.induct) auto

lemma executed_prepare:
  assumes "prepare w = (r, s)"
  shows "executed (events s) = []"
  using prepare_state(1)[OF assms] by (intro executed_none) auto

lemma executed_cleanup: "executed (events (cleanup w s)) = executed (events s)"
proof -
  from cleanup_events[of w s] obtain ps where e: "events (cleanup w s) = events s @ map Unlink ps" by blast
  have "executed (map Unlink ps) = []" by (intro executed_none) auto
  then show ?thesis by (simp add: e executed_append)
qed

lemma executed_run_engine:
  assumes "run_engine w command outputJson s = (resp, s')"
  shows "executed (events s') = executed (events s) @ [command]"
proof -
  from run_engine_frame(4)[OF assms] obtain es where
    e: "events s' = events s @ Exec command engine_options # es"
    and r: "set es \<subseteq> {ReadFile outputJson, Kill command}"
    by blast
  have "\<forall>x\<in>set es. \<forall>c opts. x \<noteq> Exec c opts"
  proof
    fix x assume "x \<in> set es"
    with r have "x = ReadFile outputJson \<or> x = Kill command" by blast
    then show "\<forall>c opts. x \<noteq> Exec c opts" by auto
  qed
  then have "executed es = []" by (rule executed_none)
  then show ?thesis by (simp add: e executed_append)
qed

lemma receive_succeeds:
  assumes "formData w = Inr form" and "form ''mediaFile'' = Some (FilePart name content)"
    and "existsSync (initial_fs w) (tempDir_of (os_tmpdir w)) \<or> mkdir_error w (tempDir_of (os_tmpdir w)) = None"
    and "write_error w (tempFilePath_of (tempDir_of (os_tmpdir w)) (date_now w) name) = None"
    and "tempFilePath_of (tempDir_of (os_tmpdir w)) (date_now w) name
           \<notin> insert (tempDir_of (os_tmpdir w)) (dirs (initial_fs w))"
  shows "\<exists>s. receive w (initial_state w) =
           (Continue \<lparr>job_diarize = (form ''diarize'' = Some (TextField ''true'')),
                      job_hfToken = env_HUGGING_FACE_TOKEN w,
                      job_tempDir = tempDir_of (os_tmpdir w),
                      job_tempFile = tempFilePath_of (tempDir_of (os_tmpdir w)) (date_now w) name\<rparr>, s) \<and>
           files (fs s) = (files (initial_fs w))
                            (tempFilePath_of (tempDir_of (os_tmpdir w)) (date_now w) name \<mapsto> content) \<and>
           dirs (initial_fs w) \<subseteq> dirs (fs s) \<and>
           dirs (fs s) \<subseteq> insert (tempDir_of (os_tmpdir w)) (dirs (initial_fs w))"
  using assms
  by (auto simp: receive_def Let_def mkdirSync_def writeFile_def initial_state_def)

lemma after_write_ready:
  assumes "list_ex (\<lambda>c. probe w (quoted c @ '' --version'')) candidates"
    and "existsSync (fs s) (scriptPath_of (process_cwd w))"
  shows "\<exists>py. py \<in> set candidates \<and>
           fst (after_write w j s) =
             Continue (command_of py (scriptPath_of (process_cwd w)) (job_tempFile j)
                         (outputJsonPath_of (job_tempDir j) (job_tempFile j)) (job_diarize j) (job_hfToken j),
                       outputJsonPath_of (job_tempDir j) (job_tempFile j))"
proof -
  let ?s2 = "(print ConsoleLog (''Temporary file saved to: '' @ job_tempFile j) s)
               \<lparr>outputJsonPath := Some (outputJsonPath_of (job_tempDir j) (job_tempFile j))\<rparr>"
  obtain x s3 where f: "findPythonExecutable w ?s2 = (x, s3)" by (cases "findPythonExecutable w ?s2")
  from probe_candidates_result[of w candidates ?s2] assms(1) f obtain py where x: "x = Inr py"
    by (auto simp: findPythonExecutable_def)
  have py: "py \<in> set candidates"
    using probe_candidates_found[of w candidates ?s2 py] f x by (simp add: findPythonExecutable_def)
  from probe_candidates_frame[of w candidates ?s2] f have "fs s3 = fs s"
    by (simp add: findPythonExecutable_def)
  with assms(2) f x have "fst (after_write w j s) =
             Continue (command_of py (scriptPath_of (process_cwd w)) (job_tempFile j)
                         (outputJsonPath_of (job_tempDir j) (job_tempFile j)) (job_diarize j) (job_hfToken j),
                       outputJsonPath_of (job_tempDir j) (job_tempFile j))"
    by (simp add: after_write_def Let_def)
  with py show ?thesis by blast
qed

lemma existsSync_grows:
  assumes "existsSync f p" and "dirs f \<subseteq> dirs g" and "files g = (files f)(q \<mapsto> c)"
  shows "existsSync g p"
  using assms by (auto simp: existsSync_def)

lemma stored_upload_is_received:
  assumes "upload_stored w name content"
  shows "\<exists>j s. receive w (initial_state w) = (Continue j, s) \<and>
           job_tempFile j = input_path w name \<and> job_tempDir j = tempDir_of (os_tmpdir w) \<and>
           job_diarize j = diarize_requested w \<and> job_hfToken j = env_HUGGING_FACE_TOKEN w \<and>
           files (fs s) = (files (initial_fs w))(input_path w name \<mapsto> content) \<and>
           dirs (initial_fs w) \<subseteq> dirs (fs s) \<and>
           dirs (fs s) \<subseteq> insert (tempDir_of (os_tmpdir w)) (dirs (initial_fs w))"
proof -
  from assms obtain form where f: "formData w = Inr form" "form ''mediaFile'' = Some (FilePart name content)"
    by (auto simp: upload_stored_def split: sum.splits)
  from assms have r:
    "existsSync (initial_fs w) (tempDir_of (os_tmpdir w)) \<or> mkdir_error w (tempDir_of (os_tmpdir w)) = None"
    "write_error w (tempFilePath_of (tempDir_of (os_tmpdir w)) (date_now w) name) = None"
    "tempFilePath_of (tempDir_of (os_tmpdir w)) (date_now w) name
           \<notin> insert (tempDir_of (os_tmpdir w)) (dirs (initial_fs w))"
    by (simp_all add: upload_stored_def input_path_def)
  from receive_succeeds[OF f r] f show ?thesis
    by (auto simp: input_path_def diarize_requested_def)
qed

lemma readFile_result: "fst (readFile w p s) = read_result w (fs s) p"
  by (simp add: readFile_def read_result_def Let_def split: option.splits)

lemma catch_exec_reply: "fst (catch_exec w outputJson e s) = failure_reply w outputJson (fs s) e"
proof -
  let ?s1 = "print ConsoleError (''Error executing Python script: '' @ error_to_string e) s"
  obtain x s2 where r: "readFile w outputJson ?s1 = (x, s2)" by (cases "readFile w outputJson ?s1")
  have x: "x = read_result w (fs s) outputJson" using readFile_result[of w outputJson ?s1] r by simp
  have r': "readFile w outputJson ?s1 = (read_result w (fs s) outputJson, s2)" using r x by simp
  show ?thesis
    using r'
    by (cases "read_result w (fs s) outputJson")
       (simp_all add: catch_exec_def failure_reply_def Let_def)
qed

lemma run_engine_reply:
  assumes "engine w command engine_options (fs s) = (outcome, f')"
  shows "fst (run_engine w command outputJson s) = engine_reply w command outputJson outcome f'"
proof (cases "execPromise command outcome")
  case (Inl e)
  then show ?thesis
    using assms by (simp add: run_engine_def engine_reply_def catch_exec_reply)
next
  case (Inr streams)
  obtain out err where s: "streams = (out, err)" by (cases streams)
  have oc: "outcome = Exited 0 out err" using Inr s by (simp add: execPromise_resolves)
  let ?s3 = "log_streams out err (emit (Exec command engine_options) (s\<lparr>fs := f'\<rparr>))"
  obtain x s4 where r: "readFile w outputJson ?s3 = (x, s4)" by (cases "readFile w outputJson ?s3")
  have x: "x = read_result w f' outputJson" using readFile_result[of w outputJson ?s3] r by simp
  have r': "readFile w outputJson ?s3 = (read_result w f' outputJson, s4)" using r x by simp
  have f4: "fs s4 = f'" using readFile_frame(1)[of w outputJson ?s3] r by simp
  show ?thesis
  proof (cases "read_result w f' outputJson")
    case (Inl readErr)
    then show ?thesis
      using assms Inr s oc r' f4
      by (simp add: run_engine_def engine_reply_def catch_exec_reply Let_def)
  next
    case (Inr doc)
    then show ?thesis
      using assms \<open>execPromise command outcome = Inr streams\<close> s oc r' f4
      by (cases "json_parse w doc")
         (simp_all add: run_engine_def engine_reply_def catch_exec_reply Let_def)
  qed
qed

lemma stored_upload_fs:
  assumes "upload_stored w name content" and "receive w (initial_state w) = (r, s)"
  shows "fs s = stored_fs w name content"
  using assms
  by (auto simp: upload_stored_def stored_fs_def input_path_def receive_def Let_def mkdirSync_def
        writeFile_def initial_state_def
      split: sum.splits if_splits option.splits form_value.splits
      intro!: fs_state.equality)

text \<open>
  C9. When diarization is requested and no token is set (the variable is absent or empty),
  and nothing else stands in the way (the upload can be stored, an interpreter answers,
  the worker script exists): the engine is invoked exactly once, with a command made of
  the interpreter, the script, the input and output flags and \<^verbatim>\<open>--diarize\<close>, and no
  token part; the response is exactly the one that lines 119 to 155 give for the way the
  engine ends on the stored upload, so the request succeeds when the engine does and
  otherwise reports the engine's failure; and both warnings are on the console.
\<close>

theorem diarization_without_token:
  assumes "upload_stored w name content" and "diarize_requested w"
    and "\<not> truthy (env_HUGGING_FACE_TOKEN w)"
    and "interpreter_found w"
    and "existsSync (initial_fs w) (scriptPath_of (process_cwd w))"
  shows "\<exists>pythonPath. pythonPath \<in> set candidates \<and>
           executed (events (final (POST w))) =
             [join_with '' ''
                [quoted pythonPath, quoted (scriptPath_of (process_cwd w)),
                 ''--input '' @ quoted (input_path w name),
                 ''--output-json '' @ quoted (output_path w name), ''--diarize'']] \<and>
           (\<forall>outcome f'.
              engine w
                (join_with '' ''
                   [quoted pythonPath, quoted (scriptPath_of (process_cwd w)),
                    ''--input '' @ quoted (input_path w name),
                    ''--output-json '' @ quoted (output_path w name), ''--diarize''])
                engine_options (stored_fs w name content) = (outcome, f') \<longrightarrow>
              response (POST w) =
                engine_reply w
                  (join_with '' ''
                     [quoted pythonPath, quoted (scriptPath_of (process_cwd w)),
                      ''--input '' @ quoted (input_path w name),
                      ''--output-json '' @ quoted (output_path w name), ''--diarize''])
                  (output_path w name) outcome f') \<and>
           (ConsoleWarn, ''Diarization requested, but HUGGING_FACE_TOKEN environment variable is not set.'')
              \<in> set (console (final (POST w))) \<and>
           (ConsoleWarn, ''Proceeding with diarization request but without HF token.'')
              \<in> set (console (final (POST w)))"
proof -
  from stored_upload_is_received[OF assms(1)] obtain j s1 where
    rc: "receive w (initial_state w) = (Continue j, s1)"
    and j: "job_tempFile j = input_path w name" "job_tempDir j = tempDir_of (os_tmpdir w)"
           "job_diarize j = diarize_requested w" "job_hfToken j = env_HUGGING_FACE_TOKEN w"
    and f: "files (fs s1) = (files (initial_fs w))(input_path w name \<mapsto> content)"
           "dirs (initial_fs w) \<subseteq> dirs (fs s1)"
    by blast
  have sf: "fs s1 = stored_fs w name content" by (rule stored_upload_fs[OF assms(1) rc])
  have sc: "existsSync (fs s1) (scriptPath_of (process_cwd w))"
    by (rule existsSync_grows[OF assms(5) f(2) f(1)])
  from after_write_ready[OF assms(4)[unfolded interpreter_found_def] sc, of j]
  obtain py where py: "py \<in> set candidates"
    and aw: "fst (after_write w j s1) =
       Continue (command_of py (scriptPath_of (process_cwd w)) (input_path w name) (output_path w name)
                   True (env_HUGGING_FACE_TOKEN w), output_path w name)"
    using j assms(2) by (auto simp: output_path_def)
  let ?c = "command_of py (scriptPath_of (process_cwd w)) (input_path w name) (output_path w name)
                   True (env_HUGGING_FACE_TOKEN w)"
  let ?o = "output_path w name"
  obtain s2 where aw2: "after_write w j s1 = (Continue (?c, ?o), s2)"
    using aw by (cases "after_write w j s1") simp
  have p: "prepare w = (Continue (?c, ?o), s2)" by (simp add: prepare_def rc aw2)
  have f2: "fs s2 = stored_fs w name content" using after_write_frame(1)[OF aw2] sf by simp
  obtain resp s3 where re: "run_engine w ?c ?o s2 = (resp, s3)" by (cases "run_engine w ?c ?o s2")
  have cmd: "?c = join_with '' ''
                [quoted py, quoted (scriptPath_of (process_cwd w)),
                 ''--input '' @ quoted (input_path w name),
                 ''--output-json '' @ quoted (output_path w name), ''--diarize'']"
    using assms(3) by (simp add: command_of_def commandParts_def truthy_def split: option.splits)
  have fp: "fst (prepare w) = Continue (?c, ?o)" by (simp add: p)
  have ac: "at_cleanup (POST w) = s3" using POST_ready(2)[OF fp] by (simp add: p re)
  have rs: "response (POST w) = resp" using POST_ready(1)[OF fp] by (simp add: p re)
  have fin: "final (POST w) = cleanup w s3" using ac by (simp add: POST_fields)
  have ex: "executed (events (final (POST w))) = [?c]"
    by (simp add: fin executed_cleanup executed_run_engine[OF re] executed_prepare[OF p])
  have rp: "\<forall>outcome f'. engine w ?c engine_options (stored_fs w name content) = (outcome, f') \<longrightarrow>
              response (POST w) = engine_reply w ?c ?o outcome f'"
  proof (intro allI impI)
    fix outcome f'
    assume "engine w ?c engine_options (stored_fs w name content) = (outcome, f')"
    then have "engine w ?c engine_options (fs s2) = (outcome, f')" by (simp add: f2)
    from run_engine_reply[OF this, of ?o] show "response (POST w) = engine_reply w ?c ?o outcome f'"
      by (simp add: rs re)
  qed
  have dz: "job_diarize j \<and> \<not> truthy (job_hfToken j)" using j assms(2,3) by simp
  from receive_continue(7)[OF rc] dz
  have w1: "(ConsoleWarn, ''Diarization requested, but HUGGING_FACE_TOKEN environment variable is not set.'')
              \<in> set (console s1)" by blast
  from after_write_continue(3)[OF aw2] dz
  have w2: "(ConsoleWarn, ''Proceeding with diarization request but without HF token.'') \<in> set (console s2)"
    by blast
  from after_write_frame(5)[OF aw2] obtain l2 where c2: "console s2 = console s1 @ l2" by blast
  from run_engine_frame(5)[OF re] obtain l3 where c3: "console s3 = console s2 @ l3" by blast
  from cleanup_console[of w s3] obtain l4 where c4: "console (cleanup w s3) = console s3 @ l4" by blast
  have cw1: "(ConsoleWarn, ''Diarization requested, but HUGGING_FACE_TOKEN environment variable is not set.'')
              \<in> set (console (final (POST w)))"
    using w1 by (simp add: fin c4 c3 c2)
  have cw2: "(ConsoleWarn, ''Proceeding with diarization request but without HF token.'')
              \<in> set (console (final (POST w)))"
    using w2 by (simp add: fin c4 c3)
  from py ex rp cw1 cw2 show ?thesis unfolding cmd by blast
qed

lemmas condition_eval = upload_stored_def diarize_requested_def interpreter_found_def
  input_path_def output_path_def

theorem diarization_without_token_witness:
  "(\<exists>pythonPath. pythonPath \<in> set candidates \<and>
     executed (events (final (POST (sample\<lparr>formData := Inr (upload ''a.mp3'' True)\<rparr>)))) =
       [join_with '' ''
          [quoted pythonPath, quoted ''/app/src/whisper/transcribe.py'',
           ''--input '' @ quoted ''/tmp/whisper-uploads/5-a.mp3'',
           ''--output-json '' @ quoted ''/tmp/whisper-uploads/5-a.json'', ''--diarize'']]) \<and>
   response (POST (sample\<lparr>formData := Inr (upload ''a.mp3'' True)\<rparr>)) =
     \<lparr>status = 200, body = TranscriptionBody ''{}''\<rparr> \<and>
   (ConsoleWarn, ''Proceeding with diarization request but without HF token.'')
      \<in> set (console (final (POST (sample\<lparr>formData := Inr (upload ''a.mp3'' True)\<rparr>))))"
proof -
  let ?w = "sample\<lparr>formData := Inr (upload ''a.mp3'' True)\<rparr>"
  let ?o = "''/tmp/whisper-uploads/5-a.json''"
  have 1: "upload_stored ?w ''a.mp3'' ''RIFF''"
    by (simp add: condition_eval sample_eval existsSync_def path_eval)
  have 2: "diarize_requested ?w" by (simp add: condition_eval sample_eval)
  have 3: "\<not> truthy (env_HUGGING_FACE_TOKEN ?w)" by (simp add: sample_def truthy_def)
  have 4: "interpreter_found ?w" by (simp add: condition_eval sample_eval candidates_def)
  have 5: "existsSync (initial_fs ?w) (scriptPath_of (process_cwd ?w))"
    by (simp add: sample_eval existsSync_def path_eval)
  have i: "input_path ?w ''a.mp3'' = ''/tmp/whisper-uploads/5-a.mp3''"
    by (simp add: condition_eval sample_eval path_eval)
  have o: "output_path ?w ''a.mp3'' = ?o"
    by (simp add: condition_eval sample_eval path_eval)
  have s: "scriptPath_of (process_cwd ?w) = ''/app/src/whisper/transcribe.py''"
    by (simp add: sample_eval path_eval)
  let ?f = "(stored_fs ?w ''a.mp3'' ''RIFF'')
              \<lparr>files := (files (stored_fs ?w ''a.mp3'' ''RIFF''))(?o \<mapsto> ''{}'')\<rparr>"
  have en: "engine ?w c engine_options (stored_fs ?w ''a.mp3'' ''RIFF'') = (Exited 0 ''done'' [], ?f)" for c
    by (simp add: sample_def engine_writes_def)
  have rp: "engine_reply ?w c ?o (Exited 0 ''done'' []) ?f = \<lparr>status = 200, body = TranscriptionBody ''{}''\<rparr>"
    for c
    by (simp add: engine_reply_def execPromise_def existsSync_def read_result_def sample_def)
  from diarization_without_token[OF 1 2 3 4 5] show ?thesis
    unfolding i o s using en rp by (metis (no_types, lifting))
qed

text \<open>
  C10. When the upload can be stored and an interpreter answers, but the worker script does
  not exist (neither before the request nor as the directory or file the handler itself
  creates): the response is HTTP 500 with the error
  \<^verbatim>\<open>Transcription script not found on server\<close>, no engine command is run, the deletion
  of the input artifact is attempted, and the artifact is gone afterwards unless that
  deletion fails.
\<close>

theorem missing_script_is_reported:
  assumes "upload_stored w name content" and "interpreter_found w"
    and "\<not> existsSync (initial_fs w) (scriptPath_of (process_cwd w))"
    and "scriptPath_of (process_cwd w) \<noteq> input_path w name"
    and "scriptPath_of (process_cwd w) \<noteq> tempDir_of (os_tmpdir w)"
  shows "response (POST w) =
           \<lparr>status = 500, body = ErrorBody ''Transcription script not found on server'' None\<rparr> \<and>
         executed (events (final (POST w))) = [] \<and>
         Unlink (input_path w name) \<in> set (events (final (POST w))) \<and>
         (unlink_error w (input_path w name) = None \<longrightarrow>
            \<not> existsSync (fs (final (POST w))) (input_path w name))"
proof -
  from stored_upload_is_received[OF assms(1)] obtain j s1 where
    rc: "receive w (initial_state w) = (Continue j, s1)"
    and j: "job_tempFile j = input_path w name"
    and f: "files (fs s1) = (files (initial_fs w))(input_path w name \<mapsto> content)"
           "dirs (fs s1) \<subseteq> insert (tempDir_of (os_tmpdir w)) (dirs (initial_fs w))"
    by blast
  have nd: "input_path w name \<notin> dirs (fs s1)"
    using assms(1) f(2) by (auto simp: upload_stored_def)
  have ns: "\<not> existsSync (fs s1) (scriptPath_of (process_cwd w))"
    using assms(3,4,5) f by (auto simp: existsSync_def)
  let ?r = "respond 500 ''Transcription script not found on server'' None :: 'a response"
  have aw: "fst (after_write w j s1) = Returned ?r"
    by (rule after_write_missing_script[OF assms(2)[unfolded interpreter_found_def] ns])
  obtain s2 where aw2: "after_write w j s1 = (Returned ?r, s2)"
    using aw by (cases "after_write w j s1") simp
  have p: "prepare w = (Returned ?r, s2)" by (simp add: prepare_def rc aw2)
  have st: "settle w = (?r, s2)" by (simp add: settle_def try_block_def p)
  have t2: "tempFilePath s2 = Some (input_path w name)"
    using after_write_frame(2)[OF aw2] receive_continue(1)[OF rc] j by simp
  have f2: "fs s2 = fs s1" by (rule after_write_frame(1)[OF aw2])
  have ne: "input_path w name \<noteq> []" by (simp add: input_path_def tempFilePath_of_nonempty)
  have fl: "files (fs s2) (input_path w name) \<noteq> None" by (simp add: f2 f(1))
  have ex: "existsSync (fs s2) (input_path w name)" using fl by (simp add: existsSync_def)
  have 1: "response (POST w) = \<lparr>status = 500, body = ErrorBody ''Transcription script not found on server'' None\<rparr>"
    by (simp add: POST_fields st respond_def)
  have 2: "executed (events (final (POST w))) = []"
    by (simp add: POST_fields st executed_cleanup executed_prepare[OF p])
  have 3: "Unlink (input_path w name) \<in> set (events (final (POST w)))"
    using cleanup_unlinks_input[OF t2 ne ex] by (simp add: POST_fields st)
  have 4: "unlink_error w (input_path w name) = None \<longrightarrow>
            \<not> existsSync (fs (final (POST w))) (input_path w name)"
    using cleanup_removes_input[where w = w, OF t2 ne fl] nd by (simp add: POST_fields st f2)
  from 1 2 3 4 show ?thesis by blast
qed

theorem missing_script_is_reported_witness:
  "response (POST (sample\<lparr>initial_fs := host_fs\<lparr>files := Map.empty\<rparr>\<rparr>)) =
     \<lparr>status = 500, body = ErrorBody ''Transcription script not found on server'' None\<rparr> \<and>
   executed (events (final (POST (sample\<lparr>initial_fs := host_fs\<lparr>files := Map.empty\<rparr>\<rparr>)))) = [] \<and>
   Unlink ''/tmp/whisper-uploads/5-a.mp3''
     \<in> set (events (final (POST (sample\<lparr>initial_fs := host_fs\<lparr>files := Map.empty\<rparr>\<rparr>)))) \<and>
   \<not> existsSync (fs (final (POST (sample\<lparr>initial_fs := host_fs\<lparr>files := Map.empty\<rparr>\<rparr>))))
         ''/tmp/whisper-uploads/5-a.mp3''"
proof -
  let ?w = "sample\<lparr>initial_fs := host_fs\<lparr>files := Map.empty\<rparr>\<rparr>"
  have 1: "upload_stored ?w ''a.mp3'' ''RIFF''"
    by (simp add: condition_eval sample_eval existsSync_def path_eval)
  have 2: "interpreter_found ?w" by (simp add: condition_eval sample_eval candidates_def)
  have 3: "\<not> existsSync (initial_fs ?w) (scriptPath_of (process_cwd ?w))"
    by (simp add: sample_eval existsSync_def path_eval)
  have i: "input_path ?w ''a.mp3'' = ''/tmp/whisper-uploads/5-a.mp3''"
    by (simp add: condition_eval sample_eval path_eval)
  have 4: "scriptPath_of (process_cwd ?w) \<noteq> input_path ?w ''a.mp3''"
    unfolding i by (simp add: sample_eval path_eval)
  have 5: "scriptPath_of (process_cwd ?w) \<noteq> tempDir_of (os_tmpdir ?w)"
    by (simp add: sample_eval path_eval)
  have u: "unlink_error ?w ''/tmp/whisper-uploads/5-a.mp3'' = None" by (simp add: sample_def)
  from missing_script_is_reported[OF 1 2 3 4 5] u show ?thesis unfolding i by blast
qed

section \<open>Limits and the timeout\<close>

lemma probe_candidates_engine:
  "probe_candidates (w\<lparr>engine := g\<rparr>) cs s = probe_candidates w cs s"
  by (induction cs arbitrary: s) (simp_all add: Let_def)

lemma prepare_engine: "prepare (w\<lparr>engine := g\<rparr>) = prepare w"
proof -
  have r: "receive (w\<lparr>engine := g\<rparr>) s = receive w s" for s
    by (simp add: receive_def mkdirSync_def writeFile_def Let_def
          cong: sum.case_cong option.case_cong form_value.case_cong prod.case_cong if_cong)
  have a: "after_write (w\<lparr>engine := g\<rparr>) j s = after_write w j s" for j s
    by (simp add: after_write_def findPythonExecutable_def probe_candidates_engine Let_def
          cong: sum.case_cong prod.case_cong if_cong)
  show ?thesis
    by (simp add: prepare_def r a initial_state_def cong: step.case_cong prod.case_cong)
qed

lemma catch_exec_engine: "catch_exec (w\<lparr>engine := g\<rparr>) out e s = catch_exec w out e s"
proof -
  have rd: "readFile (w\<lparr>engine := g\<rparr>) q t = readFile w q t" for q t
    by (simp add: readFile_def Let_def cong: option.case_cong)
  show ?thesis
    by (simp add: catch_exec_def rd Let_def cong: sum.case_cong prod.case_cong if_cong)
qed

lemma catch_exec_ignores_kill:
  "catch_exec w out (command_failed cmd code killed so se) s =
   catch_exec w out (command_failed cmd code' killed' so se) s"
  by (simp add: catch_exec_def command_failed_def error_to_string_def Let_def)

lemma failure_reply_ignores_kill:
  "failure_reply w outputJson f (command_failed cmd code killed so se) =
   failure_reply w outputJson f (command_failed cmd code' killed' so se)"
  by (simp add: failure_reply_def command_failed_def)

lemma engine_reply_timeout:
  "engine_reply w command outputJson (TimedOut out err) f =
   engine_reply w command outputJson (Exited (Suc n) out err) f"
  by (simp add: engine_reply_def execPromise_def
        failure_reply_ignores_kill[of w outputJson f command None True out err "Some (Suc n)" False])

lemma engine_reply_engine:
  "engine_reply (w\<lparr>engine := g\<rparr>) command outputJson outcome f = engine_reply w command outputJson outcome f"
proof -
  have r: "read_result (w\<lparr>engine := g\<rparr>) f p = read_result w f p" for p
    by (simp add: read_result_def cong: option.case_cong)
  have fr: "failure_reply (w\<lparr>engine := g\<rparr>) outputJson f e = failure_reply w outputJson f e" for e
    by (simp add: failure_reply_def r Let_def)
  show ?thesis
    by (simp add: engine_reply_def fr r cong: sum.case_cong prod.case_cong if_cong)
qed

lemma engine_reply_rejected:
  assumes "execPromise command outcome = Inl e"
  shows "status (engine_reply w command outputJson outcome f) = 500"
    and "\<exists>d. body (engine_reply w command outputJson outcome f) =
               ErrorBody ''Failed to execute transcription script.'' d"
  using assms
  by (auto simp: engine_reply_def failure_reply_def respond_def Let_def split: sum.splits)

lemma run_engine_kills:
  assumes "engine w command engine_options (fs s) = (TimedOut out err, f')"
  shows "Kill command \<in> set (events (snd (run_engine w command outputJson s)))"
proof -
  let ?k = "runtime_kill w command (TimedOut out err) (emit (Exec command engine_options) (s\<lparr>fs := f'\<rparr>))"
  let ?e = "command_failed command None True out err"
  obtain resp s' where c: "catch_exec w outputJson ?e ?k = (resp, s')"
    by (cases "catch_exec w outputJson ?e ?k")
  have r: "run_engine w command outputJson s = (resp, s')"
    using assms c by (simp add: run_engine_def execPromise_def)
  have k: "Kill command \<in> set (events ?k)" by (simp add: runtime_kill_def)
  from catch_exec_frame(4)[OF c] k have "Kill command \<in> set (events s')" by auto
  then show ?thesis by (simp add: r)
qed

lemma response_by_stage:
  "response (POST w) =
     (case prepare w of
        (Threw e, s) \<Rightarrow>
          respond 500 ''An unexpected error occurred.''
            (Some (if message e = [] then error_to_string e else message e))
      | (Returned r, s) \<Rightarrow> r
      | (Continue (command, outputJson), s) \<Rightarrow>
          engine_reply w command outputJson
            (fst (engine w command engine_options (fs s)))
            (snd (engine w command engine_options (fs s))))"
proof -
  obtain r s where p: "prepare w = (r, s)" by (cases "prepare w")
  show ?thesis
  proof (cases r)
    case (Threw e)
    then show ?thesis by (simp add: POST_fields settle_def try_block_def p)
  next
    case (Returned resp)
    then show ?thesis by (simp add: POST_fields settle_def try_block_def p)
  next
    case (Continue co)
    obtain c out where co: "co = (c, out)" by (cases co)
    have "fst (run_engine w c out s) =
            engine_reply w c out (fst (engine w c engine_options (fs s)))
              (snd (engine w c engine_options (fs s)))"
      by (rule run_engine_reply) simp
    then show ?thesis
      by (simp add: POST_fields settle_def try_block_def p Continue co case_prod_beta)
  qed
qed

text \<open>
  C4 (as amended). Every engine command is run with a timeout of ten minutes and a buffer
  limit of 10 MiB. When a job's engine is still running at the timeout, the runtime
  signals the shell it started and rejects, and the handler answers: HTTP 500 with the
  error \<^verbatim>\<open>Failed to execute transcription script.\<close>. The rejection is marked as
  killed and has no exit status, unlike the rejection of any run that exits; the response,
  however, is the one a non-zero exit with the same captured streams gets, and carries no
  mark of the timeout.
\<close>

theorem engine_limits_and_timeout_response:
  "(Exec c opts \<in> set (events (final (POST w))) \<longrightarrow>
      timeout opts = 10 * 60 * 1000 \<and> maxBuffer opts = 10 * 2 ^ 20) \<and>
   (\<forall>command outputJson f'.
      fst (prepare w) = Continue (command, outputJson) \<and>
      engine w command engine_options (fs (snd (prepare w))) = (TimedOut out err, f') \<longrightarrow>
      Kill command \<in> set (events (final (POST w))) \<and>
      status (response (POST w)) = 500 \<and>
      (\<exists>d. body (response (POST w)) = ErrorBody ''Failed to execute transcription script.'' d) \<and>
      response (POST w) = engine_reply w command outputJson (Exited (Suc n) out err) f') \<and>
   (\<exists>e. execPromise c' (TimedOut out err) = Inl e \<and> err_killed e \<and> err_code e = None) \<and>
   (\<forall>m so se e. execPromise c' (Exited m so se) = Inl e \<longrightarrow> \<not> err_killed e \<and> err_code e = Some m) \<and>
   response (POST (w\<lparr>engine := (\<lambda>c opts f. (TimedOut out err, g c opts f))\<rparr>)) =
   response (POST (w\<lparr>engine := (\<lambda>c opts f. (Exited (Suc n) out err, g c opts f))\<rparr>))"
proof -
  let ?wt = "w\<lparr>engine := (\<lambda>c opts f. (TimedOut out err, g c opts f))\<rparr>"
  let ?we = "w\<lparr>engine := (\<lambda>c opts f. (Exited (Suc n) out err, g c opts f))\<rparr>"
  have a: "Exec c opts \<in> set (events (final (POST w))) \<longrightarrow>
      timeout opts = 10 * 60 * 1000 \<and> maxBuffer opts = 10 * 2 ^ 20"
  proof
    assume e: "Exec c opts \<in> set (events (final (POST w)))"
    from cleanup_events[of w "snd (settle w)"] obtain ps where
      ev: "events (cleanup w (snd (settle w))) = events (snd (settle w)) @ map Unlink ps" by blast
    from e have "Exec c opts \<in> set (events (snd (settle w)))" by (auto simp: POST_fields ev)
    with settle_state(1)[of w] have "opts = engine_options" by blast
    then show "timeout opts = 10 * 60 * 1000 \<and> maxBuffer opts = 10 * 2 ^ 20"
      by (simp add: engine_options_def)
  qed
  have b: "\<forall>command outputJson f'.
      fst (prepare w) = Continue (command, outputJson) \<and>
      engine w command engine_options (fs (snd (prepare w))) = (TimedOut out err, f') \<longrightarrow>
      Kill command \<in> set (events (final (POST w))) \<and>
      status (response (POST w)) = 500 \<and>
      (\<exists>d. body (response (POST w)) = ErrorBody ''Failed to execute transcription script.'' d) \<and>
      response (POST w) = engine_reply w command outputJson (Exited (Suc n) out err) f'"
  proof (intro allI impI)
    fix command outputJson f'
    assume h: "fst (prepare w) = Continue (command, outputJson) \<and>
      engine w command engine_options (fs (snd (prepare w))) = (TimedOut out err, f')"
    then have p: "fst (prepare w) = Continue (command, outputJson)"
      and en: "engine w command engine_options (fs (snd (prepare w))) = (TimedOut out err, f')"
      by simp_all
    have ex: "execPromise command (TimedOut out err) = Inl (command_failed command None True out err)"
      by (simp add: execPromise_def)
    have r: "response (POST w) = engine_reply w command outputJson (TimedOut out err) f'"
      using POST_ready(1)[OF p] run_engine_reply[OF en] by simp
    have k: "Kill command \<in> set (events (at_cleanup (POST w)))"
      using POST_ready(2)[OF p] run_engine_kills[OF en] by simp
    from cleanup_events[of w "at_cleanup (POST w)"] obtain ps where
      "events (cleanup w (at_cleanup (POST w))) = events (at_cleanup (POST w)) @ map Unlink ps" by blast
    with k have kf: "Kill command \<in> set (events (final (POST w)))" by (simp add: POST_fields)
    from kf r engine_reply_rejected[where w = w and outputJson = outputJson and f = f', OF ex]
    show "Kill command \<in> set (events (final (POST w))) \<and>
      status (response (POST w)) = 500 \<and>
      (\<exists>d. body (response (POST w)) = ErrorBody ''Failed to execute transcription script.'' d) \<and>
      response (POST w) = engine_reply w command outputJson (Exited (Suc n) out err) f'"
      by (simp add: engine_reply_timeout[where n = n])
  qed
  have d1: "\<exists>e. execPromise c' (TimedOut out err) = Inl e \<and> err_killed e \<and> err_code e = None"
    by (simp add: execPromise_def command_failed_def)
  have d2: "\<forall>m so se e. execPromise c' (Exited m so se) = Inl e \<longrightarrow> \<not> err_killed e \<and> err_code e = Some m"
    by (auto simp: execPromise_def command_failed_def split: if_splits)
  have e: "response (POST ?wt) = response (POST ?we)"
    by (simp add: response_by_stage prepare_engine engine_reply_engine
          engine_reply_timeout[where n = n] cong: step.case_cong prod.case_cong)
  from a b d1 d2 e show ?thesis by blast
qed

theorem engine_limits_and_timeout_response_witness:
  "Exec (quoted ''python3'' @ '' '' @ quoted ''/app/src/whisper/transcribe.py'' @ '' --input '' @
         quoted ''/tmp/whisper-uploads/5-a.mp3'' @ '' --output-json '' @
         quoted ''/tmp/whisper-uploads/5-a.json'') engine_options
     \<in> set (events (final (POST sample))) \<and>
   timeout engine_options = 600000 \<and> maxBuffer engine_options = 10485760 \<and>
   Kill (quoted ''python3'' @ '' '' @ quoted ''/app/src/whisper/transcribe.py'' @ '' --input '' @
         quoted ''/tmp/whisper-uploads/5-a.mp3'' @ '' --output-json '' @
         quoted ''/tmp/whisper-uploads/5-a.json'')
     \<in> set (events (final (POST (sample\<lparr>engine := engine_writes (TimedOut ''out'' ''boom'') None\<rparr>)))) \<and>
   status (response (POST (sample\<lparr>engine := engine_writes (TimedOut ''out'' ''boom'') None\<rparr>))) = 500"
proof -
  let ?c = "quoted ''python3'' @ '' '' @ quoted ''/app/src/whisper/transcribe.py'' @ '' --input '' @
         quoted ''/tmp/whisper-uploads/5-a.mp3'' @ '' --output-json '' @
         quoted ''/tmp/whisper-uploads/5-a.json''"
  let ?o = "''/tmp/whisper-uploads/5-a.json''"
  let ?wt = "sample\<lparr>engine := engine_writes (TimedOut ''out'' ''boom'') None\<rparr>"
  have e: "Exec ?c engine_options \<in> set (events (final (POST sample)))"
    by (simp add: sample_eval handler_eval path_eval)
  have p: "fst (prepare ?wt) = Continue (?c, ?o)" by (rule sample_prepare_engine)
  have en: "engine ?wt ?c engine_options (fs (snd (prepare ?wt))) =
              (TimedOut ''out'' ''boom'', fs (snd (prepare ?wt)))"
    by (simp add: sample_def engine_writes_def)
  note t1 = engine_limits_and_timeout_response[of ?c engine_options sample "''out''" "''boom''" 0 ?c "\<lambda>c opts f. f"]
  note t2 = engine_limits_and_timeout_response[of ?c engine_options ?wt "''out''" "''boom''" 0 ?c "\<lambda>c opts f. f"]
  from t1 e have l: "timeout engine_options = 10 * 60 * 1000 \<and> maxBuffer engine_options = 10 * 2 ^ 20"
    by blast
  from t2 p en have k: "Kill ?c \<in> set (events (final (POST ?wt))) \<and> status (response (POST ?wt)) = 500"
    by blast
  from l have "timeout engine_options = 600000 \<and> maxBuffer engine_options = 10485760" by simp
  with e k show ?thesis by blast
qed

text \<open>
  C4 as stated fails twice: a timed-out run and a run that exits with status 1 get the very
  same response, and when the engine outlives the shell that was signalled it is still
  running when the handler returns.
\<close>

theorem timeout_unclassified_engine_running:
  "response (POST (sample\<lparr>engine := engine_writes (TimedOut ''out'' ''boom'') None\<rparr>)) =
   response (POST (sample\<lparr>engine := engine_writes (Exited 1 ''out'' ''boom'') None\<rparr>)) \<and>
   running (final (POST (sample\<lparr>engine := engine_writes (TimedOut ''out'' ''boom'') None,
                                 engine_survives := (\<lambda>c. True)\<rparr>))) =
     [quoted ''python3'' @ '' '' @ quoted ''/app/src/whisper/transcribe.py'' @ '' --input '' @
      quoted ''/tmp/whisper-uploads/5-a.mp3'' @ '' --output-json '' @
      quoted ''/tmp/whisper-uploads/5-a.json'']"
  by (simp add: sample_eval handler_eval path_eval)

section \<open>What reaches the client and the console\<close>

text \<open>
  C1 fails on the code. With diarization requested and the token \<^verbatim>\<open>hf_secret\<close> set, an
  engine that exits with status 1 and prints nothing makes the handler fall back to the
  error's message, which quotes the whole command line: the token is in the
  \<^verbatim>\<open>details\<close> of the response and in the logged error. The masking of the logged
  command replaces only the first occurrence of the token's text, so an upload whose name
  contains that text leaves the token argument itself in the log.
\<close>

theorem token_disclosed:
  "response (POST (sample\<lparr>formData := Inr (upload ''a.mp3'' True),
                           env_HUGGING_FACE_TOKEN := Some ''hf_secret'',
                           engine := engine_writes (Exited 1 [] []) None\<rparr>)) =
     \<lparr>status = 500,
      body = ErrorBody ''Failed to execute transcription script.''
        (Some (''Command failed: '' @ quoted ''python3'' @ '' '' @
               quoted ''/app/src/whisper/transcribe.py'' @ '' --input '' @
               quoted ''/tmp/whisper-uploads/5-a.mp3'' @ '' --output-json '' @
               quoted ''/tmp/whisper-uploads/5-a.json'' @ '' --diarize --hf-token '' @
               quoted ''hf_secret'' @ [newline]))\<rparr> \<and>
   list_ex (\<lambda>(l, t). str_includes t ''hf_secret'')
     (console (final (POST (sample\<lparr>formData := Inr (upload ''a.mp3'' True),
                                   env_HUGGING_FACE_TOKEN := Some ''hf_secret'',
                                   engine := engine_writes (Exited 1 [] []) None\<rparr>)))) \<and>
   list_ex (\<lambda>(l, t). str_includes t ''hf_secret'')
     (console (final (POST (sample\<lparr>formData := Inr (upload ''hf_secret.mp3'' True),
                                   env_HUGGING_FACE_TOKEN := Some ''hf_secret''\<rparr>))))"
  by (simp add: sample_eval handler_eval path_eval)

text \<open>
  C3 fails on the code. The paths are wrapped in double quotes without escaping, so a file
  name that contains double quotes ends the quoted region: the shell sees the input path
  cut short, the operator \<^verbatim>\<open>;\<close> and a command word of the uploader's choosing.
\<close>

theorem quote_in_filename_splits_command:
  "map sh_words
     (executed (events (final (POST
        (sample\<lparr>formData := Inr (upload (''a'' @ [dq] @ '';id;'' @ [dq] @ ''.mp3'') False)\<rparr>))))) =
   [[Word ''python3'', Word ''/app/src/whisper/transcribe.py'',
     Word ''--input'', Word ''/tmp/whisper-uploads/5-a'', Op '';'', Word ''id'', Op '';'', Word ''.mp3'',
     Word ''--output-json'', Word ''/tmp/whisper-uploads/5-a'', Op '';'', Word ''id'', Op '';'',
     Word ''.json'']]"
  by (simp add: sample_eval handler_eval path_eval sh_words_def flush_def grow_def sq_def backslash_def)

text \<open>For comparison, a file name with a blank and no quote stays one word.\<close>

lemma plain_filename_keeps_words:
  "map sh_words (executed (events (final (POST (sample\<lparr>formData := Inr (upload ''a b.mp3'' False)\<rparr>))))) =
   [[Word ''python3'', Word ''/app/src/whisper/transcribe.py'',
     Word ''--input'', Word ''/tmp/whisper-uploads/5-a b.mp3'',
     Word ''--output-json'', Word ''/tmp/whisper-uploads/5-a b.json'']]"
  by (simp add: sample_eval handler_eval path_eval sh_words_def flush_def grow_def sq_def backslash_def)

end
